theory Spec2Isabelle
  imports Main
begin

section \<open>Connection bootstrap loops\<close>

text \<open>
  Every program of the messaging variants opens its transport in a retry loop at the top of
  \<open>main\<close>. The k-th call of the client library (\<open>amqp.Dial\<close>, \<open>subscriber.Connect\<close>,
  \<open>db.Ping\<close>) is an input of the model: a function from the number of calls made so far to
  the error that call returns (\<open>None\<close> is Go's \<open>nil\<close> error). The state of a loop counts the
  calls and the milliseconds slept, so that the retry policy can be read off the result.
\<close>

type_synonym err = string

record boot =
  calls :: nat
  slept_ms :: nat
  last_err :: "err option"

definition boot0 :: boot where
  "boot0 = \<lparr>calls = 0, slept_ms = 0, last_err = None\<rparr>"

datatype startup = Fatal string | Started

text \<open>
  mq-zero-go/email-service/main.go, lines 32-43:
  \<^verbatim>\<open>
  for i := 0; i < 120; i++ {
      err = subscriber.Connect(publisherAddr)
      if err == nil { log.Printf(...); break }
      log.Printf("Connection attempt %d failed: %v", i+1, err)
      time.Sleep(250 * time.Millisecond)
  }
  if err != nil { log.Fatalf("Failed to connect to publisher after retries: %v", err) }
  \<close>
  The first argument of the loop function is the number of iterations that remain.
\<close>

fun zero_email_loop :: "nat \<Rightarrow> (nat \<Rightarrow> err option) \<Rightarrow> boot \<Rightarrow> boot" where
  "zero_email_loop 0 connect s = s"
| "zero_email_loop (Suc n) connect s =
     (case connect (calls s) of
        None \<Rightarrow> s\<lparr>calls := calls s + 1, last_err := None\<rparr>
      | Some e \<Rightarrow>
          zero_email_loop n connect
            (s\<lparr>calls := calls s + 1, slept_ms := slept_ms s + 250, last_err := Some e\<rparr>))"

definition zero_email_connect :: "(nat \<Rightarrow> err option) \<Rightarrow> boot" where
  "zero_email_connect connect = zero_email_loop 120 connect boot0"

definition zero_email_startup :: "(nat \<Rightarrow> err option) \<Rightarrow> startup" where
  "zero_email_startup connect =
     (case last_err (zero_email_connect connect) of
        Some e \<Rightarrow> Fatal ''Failed to connect to publisher after retries''
      | None \<Rightarrow> Started)"

text \<open>
  The fulfillment service of the broadcast variant (src/unnamed/part_002, lines 18-30) has
  the same loop around \<open>amqp.Dial\<close>, without the log line of a failed attempt:
  \<^verbatim>\<open>
  for i := 0; i < 120; i++ {
      conn, err = amqp.Dial(rabbitMQURL)
      if err == nil { log.Println("Connected to RabbitMQ"); break }
      time.Sleep(250 * time.Millisecond)
  }
  if err != nil { log.Fatalf("Failed to connect to RabbitMQ: %v", err) }
  \<close>
\<close>

fun fulfillment_loop :: "nat \<Rightarrow> (nat \<Rightarrow> err option) \<Rightarrow> boot \<Rightarrow> boot" where
  "fulfillment_loop 0 dial s = s"
| "fulfillment_loop (Suc n) dial s =
     (case dial (calls s) of
        None \<Rightarrow> s\<lparr>calls := calls s + 1, last_err := None\<rparr>
      | Some e \<Rightarrow>
          fulfillment_loop n dial
            (s\<lparr>calls := calls s + 1, slept_ms := slept_ms s + 250, last_err := Some e\<rparr>))"

definition fulfillment_connect :: "(nat \<Rightarrow> err option) \<Rightarrow> boot" where
  "fulfillment_connect dial = fulfillment_loop 120 dial boot0"

definition fulfillment_startup :: "(nat \<Rightarrow> err option) \<Rightarrow> startup" where
  "fulfillment_startup dial =
     (case last_err (fulfillment_connect dial) of
        Some e \<Rightarrow> Fatal ''Failed to connect to RabbitMQ''
      | None \<Rightarrow> Started)"

text \<open>
  The email service of the broadcast variant (src/unnamed/part_003, lines 18-28) dials once
  before the loop and again at the end of every iteration:
  \<^verbatim>\<open>
  conn, err := amqp.Dial(rabbitMQURL)
  for range 120 {
      if err == nil { break }
      time.Sleep(250 * time.Millisecond)
      conn, err = amqp.Dial(rabbitMQURL)
  }
  if err != nil { log.Fatalf("Failed to connect to RabbitMQ: %v", err) }
  \<close>
\<close>

fun rabbit_email_loop :: "nat \<Rightarrow> (nat \<Rightarrow> err option) \<Rightarrow> boot \<Rightarrow> boot" where
  "rabbit_email_loop 0 dial s = s"
| "rabbit_email_loop (Suc n) dial s =
     (case last_err s of
        None \<Rightarrow> s
      | Some e \<Rightarrow>
          rabbit_email_loop n dial
            (s\<lparr>calls := calls s + 1, slept_ms := slept_ms s + 250,
               last_err := dial (calls s)\<rparr>))"

definition rabbit_email_connect :: "(nat \<Rightarrow> err option) \<Rightarrow> boot" where
  "rabbit_email_connect dial =
     rabbit_email_loop 120 dial (boot0\<lparr>calls := 1, last_err := dial 0\<rparr>)"

definition rabbit_email_startup :: "(nat \<Rightarrow> err option) \<Rightarrow> startup" where
  "rabbit_email_startup dial =
     (case last_err (rabbit_email_connect dial) of
        Some e \<Rightarrow> Fatal ''Failed to connect to RabbitMQ''
      | None \<Rightarrow> Started)"

text \<open>
  The backend of the broadcast variant (src/unnamed/part_001, lines 67-97) keeps the
  connection in the global \<open>rabbitConn\<close> and tests that global, not the error, after the
  loop; then it opens its channel and declares its queue, and an error of either is fatal:
  \<^verbatim>\<open>
  for range 120 {
      var err error
      rabbitConn, err = amqp.Dial(rabbitMQURL)
      if err == nil { log.Println("Connected to RabbitMQ"); break }
      time.Sleep(250 * time.Millisecond)
  }
  if rabbitConn == nil { log.Fatal("Failed to connect to RabbitMQ after retries") }
  rabbitCh, err = rabbitConn.Channel()
  if err != nil { log.Fatal("Failed to open RabbitMQ channel:", err) }
  _, err = rabbitCh.QueueDeclare("email_queue", true, false, false, false, nil)
  if err != nil { log.Fatal("Failed to declare queue:", err) }
  \<close>
  A call of \<open>amqp.Dial\<close> has three outcomes: an open connection and no error; no connection
  and the error of the network dial; or, when the network connection was made and the
  handshake failed, the connection it could not open together with the error. The loop
  stores whatever connection comes back. \<open>Channel()\<close> on a connection that is not open
  returns an error; on an open one its outcome is the reply of the broker, as is the
  outcome of \<open>QueueDeclare\<close>.
\<close>

type_synonym conn = nat

datatype dial_result = Connected conn | Refused err | Unopened conn err

datatype amqp_connection = OpenConn conn | ClosedConn conn

record rabbit_boot = boot +
  rabbitConn :: "amqp_connection option"

definition rabbit_boot0 :: rabbit_boot where
  "rabbit_boot0 = \<lparr>calls = 0, slept_ms = 0, last_err = None, rabbitConn = None\<rparr>"

fun rabbit_backend_loop :: "nat \<Rightarrow> (nat \<Rightarrow> dial_result) \<Rightarrow> rabbit_boot \<Rightarrow> rabbit_boot" where
  "rabbit_backend_loop 0 dial s = s"
| "rabbit_backend_loop (Suc n) dial s =
     (case dial (calls s) of
        Connected c \<Rightarrow>
          s\<lparr>calls := calls s + 1, last_err := None, rabbitConn := Some (OpenConn c)\<rparr>
      | Refused e \<Rightarrow>
          rabbit_backend_loop n dial
            (s\<lparr>calls := calls s + 1, slept_ms := slept_ms s + 250, last_err := Some e,
               rabbitConn := None\<rparr>)
      | Unopened c e \<Rightarrow>
          rabbit_backend_loop n dial
            (s\<lparr>calls := calls s + 1, slept_ms := slept_ms s + 250, last_err := Some e,
               rabbitConn := Some (ClosedConn c)\<rparr>))"

definition rabbit_backend_connect :: "(nat \<Rightarrow> dial_result) \<Rightarrow> rabbit_boot" where
  "rabbit_backend_connect dial = rabbit_backend_loop 120 dial rabbit_boot0"

definition Channel :: "err option \<Rightarrow> amqp_connection \<Rightarrow> err option" where
  "Channel reply c =
     (case c of
        OpenConn i \<Rightarrow> reply
      | ClosedConn i \<Rightarrow> Some ''channel/connection is not open'')"

definition rabbit_backend_startup ::
  "(nat \<Rightarrow> dial_result) \<Rightarrow> err option \<Rightarrow> err option \<Rightarrow> startup" where
  "rabbit_backend_startup dial channel_reply declare_reply =
     (case rabbitConn (rabbit_backend_connect dial) of
        None \<Rightarrow> Fatal ''Failed to connect to RabbitMQ after retries''
      | Some c \<Rightarrow>
          (case Channel channel_reply c of
             Some e \<Rightarrow> Fatal ''Failed to open RabbitMQ channel:''
           | None \<Rightarrow>
               (case declare_reply of
                  Some e \<Rightarrow> Fatal ''Failed to declare queue:''
                | None \<Rightarrow> Started)))"

text \<open>
  The polling variant has no broker: the database is its transport. Backend
  (mq-pgmq-go/backend/main.go, lines 44-56) and email service
  (mq-pgmq-go/email-service/main.go, lines 48-55) wait for it with
  \<^verbatim>\<open>
  for range 120 {
      if err := db.Ping(); err == nil { log.Println("Connected to database"); break }
      time.Sleep(250 * time.Millisecond)
  }
  \<close>
  and test nothing after the loop. The backend goes on to \<open>runMigrations\<close>, whose error is
  fatal; the email service goes on to its consumer loop.
\<close>

fun pgmq_wait_loop :: "nat \<Rightarrow> (nat \<Rightarrow> err option) \<Rightarrow> boot \<Rightarrow> boot" where
  "pgmq_wait_loop 0 ping s = s"
| "pgmq_wait_loop (Suc n) ping s =
     (case ping (calls s) of
        None \<Rightarrow> s\<lparr>calls := calls s + 1, last_err := None\<rparr>
      | Some e \<Rightarrow>
          pgmq_wait_loop n ping
            (s\<lparr>calls := calls s + 1, slept_ms := slept_ms s + 250, last_err := Some e\<rparr>))"

definition pgmq_wait :: "(nat \<Rightarrow> err option) \<Rightarrow> boot" where
  "pgmq_wait ping = pgmq_wait_loop 120 ping boot0"

definition pgmq_backend_startup :: "(nat \<Rightarrow> err option) \<Rightarrow> err option \<Rightarrow> startup" where
  "pgmq_backend_startup ping runMigrations =
     (let s = pgmq_wait ping in
      case runMigrations of
        Some e \<Rightarrow> Fatal ''Failed to run migrations:''
      | None \<Rightarrow> Started)"

definition pgmq_email_startup :: "(nat \<Rightarrow> err option) \<Rightarrow> startup" where
  "pgmq_email_startup ping = (let s = pgmq_wait ping in Started)"

text \<open>An endpoint that is never reachable: every call fails, and \<open>amqp.Dial\<close> returns no
  connection with its error. And a broker that is reachable and rejects every handshake:
  \<open>amqp.Dial\<close> returns the connection it could not open with its error.\<close>

definition refused :: "nat \<Rightarrow> err option" where
  "refused k = Some ''dial tcp: connection refused''"

definition refused_dial :: "nat \<Rightarrow> dial_result" where
  "refused_dial k = Refused ''dial tcp: connection refused''"

definition rejected_dial :: "nat \<Rightarrow> dial_result" where
  "rejected_dial k = Unopened k ''username or password not allowed''"

section \<open>The write path: starring a game and publishing the event\<close>

text \<open>
  The four backends declare the same struct (src/unnamed/part_001, lines 21-26;
  mq-pgmq-go/backend/main.go, lines 20-25; src/unnamed/part_009, lines 22-27):
  \<^verbatim>\<open>
  type Game struct {
      ID          int    `json:"id"`
      Title       string `json:"title"`
      Description string `json:"description"`
      Stars       int    `json:"stars"`
  }
  \<close>
\<close>

record Game =
  ID :: int
  Title :: string
  Description :: string
  Stars :: int

type_synonym bytes = string

text \<open>
  \<open>json.Marshal\<close> walks the struct in declaration order and emits one member per field,
  named by the field's tag. The document it builds is a value of \<open>json\<close>; turning the
  document into bytes (quoting, escaping, digits) is the work of encoding/json and enters
  the model as the function \<open>enc\<close>. For a struct of ints and strings \<open>json.Marshal\<close> has no
  error to return, but the callers test one, so the result is a sum.
\<close>

datatype json = JInt int | JString string | JObject "(string \<times> json) list"

definition Game_json :: "Game \<Rightarrow> json" where
  "Game_json g =
     JObject [(''id'', JInt (ID g)), (''title'', JString (Title g)),
              (''description'', JString (Description g)), (''stars'', JInt (Stars g))]"

definition json_Marshal :: "(json \<Rightarrow> bytes) \<Rightarrow> Game \<Rightarrow> err + bytes" where
  "json_Marshal enc g = Inr (enc (Game_json g))"

text \<open>
  For the examples, an encoder: the compact text of a document, which is what encoding/json
  writes when no string of the document needs escaping. The theorems below hold for every
  \<open>enc\<close>.
\<close>

definition digit_char :: "nat \<Rightarrow> char" where
  "digit_char d = ''0123456789'' ! d"

fun decimal :: "nat \<Rightarrow> string" where
  "decimal n =
     (if n < 10 then [digit_char n] else decimal (n div 10) @ [digit_char (n mod 10)])"

definition show_int :: "int \<Rightarrow> string" where
  "show_int i = (if i < 0 then CHR ''-'' # decimal (nat (- i)) else decimal (nat i))"

fun json_text :: "json \<Rightarrow> bytes" and members_text :: "(string \<times> json) list \<Rightarrow> bytes" where
  "json_text (JInt i) = show_int i"
| "json_text (JString s) = [CHR 0x22] @ s @ [CHR 0x22]"
| "json_text (JObject fs) = ''{'' @ members_text fs @ ''}''"
| "members_text [] = []"
| "members_text ((k, v) # fs) =
     [CHR 0x22] @ k @ [CHR 0x22] @ '':'' @ json_text v
       @ (if fs = [] then [] else '','' @ members_text fs)"

text \<open>
  The table \<open>games\<close>, keyed by \<open>id\<close>. The statement of the handler,
  \<^verbatim>\<open>UPDATE games SET stars = stars + 1 WHERE id = $1 RETURNING id, title, description, stars\<close>
  either fails as a whole (the input \<open>fail\<close>: the database is unreachable, the statement is
  rejected), or finds no row, or commits the increment and returns the new row.
\<close>

record game_row =
  title :: string
  description :: string
  stars :: int

type_synonym games_table = "int \<rightharpoonup> game_row"

datatype 'a sql_result = Row 'a | ErrNoRows | SqlErr err

definition add_star :: "err option \<Rightarrow> games_table \<Rightarrow> int \<Rightarrow> Game sql_result \<times> games_table" where
  "add_star fail tbl gid =
     (case fail of
        Some e \<Rightarrow> (SqlErr e, tbl)
      | None \<Rightarrow>
          (case tbl gid of
             None \<Rightarrow> (ErrNoRows, tbl)
           | Some r \<Rightarrow>
               (Row \<lparr>ID = gid, Title = title r, Description = description r, Stars = stars r + 1\<rparr>,
                tbl(gid \<mapsto> r\<lparr>stars := stars r + 1\<rparr>))))"

subsection \<open>The request path\<close>

text \<open>\<open>strings.TrimPrefix\<close>, \<open>strings.Split\<close> with the separator \<open>"/"\<close>, and \<open>strconv.Atoi\<close>
  for a 64-bit \<open>int\<close>.\<close>

definition TrimPrefix :: "string \<Rightarrow> string \<Rightarrow> string" where
  "TrimPrefix s p = (if take (length p) s = p then drop (length p) s else s)"

fun Split :: "string \<Rightarrow> char \<Rightarrow> string list" where
  "Split [] sep = [[]]"
| "Split (c # cs) sep =
     (if c = sep then [] # Split cs sep
      else (case Split cs sep of
              [] \<Rightarrow> [[c]]
            | w # ws \<Rightarrow> (c # w) # ws))"

definition digit :: "char \<Rightarrow> nat option" where
  "digit c = (let k = (of_char c :: nat) in if 48 \<le> k \<and> k \<le> 57 then Some (k - 48) else None)"

fun digits :: "nat \<Rightarrow> string \<Rightarrow> nat option" where
  "digits acc [] = Some acc"
| "digits acc (c # cs) =
     (case digit c of
        None \<Rightarrow> None
      | Some d \<Rightarrow> digits (10 * acc + d) cs)"

definition Atoi :: "string \<Rightarrow> err + int" where
  "Atoi s =
     (let (neg, ds) =
        (case s of
           [] \<Rightarrow> (False, s)
         | c # cs \<Rightarrow> if c = CHR ''-'' then (True, cs) else if c = CHR ''+'' then (False, cs)
                     else (False, s))
      in if ds = [] then Inl ''invalid syntax''
         else (case digits 0 ds of
                 None \<Rightarrow> Inl ''invalid syntax''
               | Some n \<Rightarrow>
                   (let v = (if neg then - int n else int n)
                    in if v < - (2 ^ 63) \<or> 2 ^ 63 - 1 < v then Inl ''value out of range''
                       else Inr v)))"

record request =
  Method :: string
  Path :: string

record http_response =
  status :: nat
  content_type :: string
  written :: bytes

text \<open>\<open>http.Error(w, msg, code)\<close> writes the code and the message followed by a newline.\<close>

definition http_Error :: "string \<Rightarrow> nat \<Rightarrow> http_response" where
  "http_Error msg code =
     \<lparr>status = code, content_type = ''text/plain; charset=utf-8'', written = msg @ [CHR 0x0A]\<rparr>"

datatype log_arg = AInt int | AStr string

datatype log_line = Logf string "log_arg list"

text \<open>What one call of the handler did: the response, the table afterwards, the lines
  logged (in order) and the messages handed to the transport (in order).\<close>

record 'm handled =
  response :: http_response
  games :: games_table
  logged :: "log_line list"
  published :: "'m list"

text \<open>
  \<open>handleGameActions\<close> is the same function in the four backends up to the publish step
  (src/unnamed/part_001, lines 176-235; mq-pgmq-go/backend/main.go, lines 135-179;
  src/unnamed/part_009, lines 177-218; the backend of the push/pull variant):
  \<^verbatim>\<open>
  path := strings.TrimPrefix(r.URL.Path, "/api/games/")
  parts := strings.Split(path, "/")
  if len(parts) < 2 || parts[1] != "star" { http.Error(w, "Invalid path", 400); return }
  gameID, err := strconv.Atoi(parts[0])
  if err != nil { http.Error(w, "Invalid game ID", 400); return }
  if r.Method == "POST" {
      var game Game
      err := db.QueryRow("UPDATE ...", gameID).Scan(&game.ID, ...)
      if err == sql.ErrNoRows { http.Error(w, "Game not found", 404); return }
      if err != nil { http.Error(w, err.Error(), 500); return }
      ... publish ...
      w.Header().Set("Content-Type", "application/json")
      json.NewEncoder(w).Encode(game)
  }
  \<close>
  The publish step is the argument \<open>publish\<close>: from the updated game to the lines it logs
  and the messages it sends. \<open>Encode\<close> writes the document and a newline; a handler that
  writes nothing answers 200 with an empty body.
\<close>

definition star_path :: "string \<Rightarrow> http_response + int" where
  "star_path p =
     (let parts = Split (TrimPrefix p ''/api/games/'') (CHR ''/'')
      in if length parts < 2 \<or> parts ! 1 \<noteq> ''star'' then Inl (http_Error ''Invalid path'' 400)
         else (case Atoi (parts ! 0) of
                 Inl e \<Rightarrow> Inl (http_Error ''Invalid game ID'' 400)
               | Inr gameID \<Rightarrow> Inr gameID))"

definition handleGameActions ::
  "(Game \<Rightarrow> log_line list \<times> 'm list) \<Rightarrow> (json \<Rightarrow> bytes) \<Rightarrow> err option \<Rightarrow>
   request \<Rightarrow> games_table \<Rightarrow> 'm handled" where
  "handleGameActions publish enc db_fail r tbl =
     (case star_path (Path r) of
        Inl resp \<Rightarrow> \<lparr>response = resp, games = tbl, logged = [], published = []\<rparr>
      | Inr gameID \<Rightarrow>
          if Method r = ''POST'' then
            (case add_star db_fail tbl gameID of
               (ErrNoRows, tbl') \<Rightarrow>
                 \<lparr>response = http_Error ''Game not found'' 404, games = tbl', logged = [],
                  published = []\<rparr>
             | (SqlErr e, tbl') \<Rightarrow>
                 \<lparr>response = http_Error e 500, games = tbl', logged = [], published = []\<rparr>
             | (Row game, tbl') \<Rightarrow>
                 (let (ls, ms) = publish game
                  in \<lparr>response =
                        \<lparr>status = 200, content_type = ''application/json'',
                         written = enc (Game_json game) @ [CHR 0x0A]\<rparr>,
                      games = tbl', logged = ls, published = ms\<rparr>))
          else \<lparr>response = \<lparr>status = 200, content_type = [], written = []\<rparr>, games = tbl,
                logged = [], published = []\<rparr>)"

subsection \<open>The publish step of each backend\<close>

text \<open>
  Broadcast variant (src/unnamed/part_001, lines 206-230). \<open>rabbitCh\<close> is the global
  channel; \<open>publish_err\<close> is what \<open>rabbitCh.Publish\<close> returns.
  \<^verbatim>\<open>
  if rabbitCh != nil {
      body, err := json.Marshal(game)
      if err != nil { log.Printf("Failed to marshal game event: %v", err) } else {
          err = rabbitCh.Publish("game_events", "", false, false,
              amqp.Publishing{ContentType: "application/json", Body: body, DeliveryMode: 2})
          if err != nil { log.Printf("Failed to publish message: %v", err) }
          else { log.Printf("Published event for game %d", game.ID) }
      }
  }
  \<close>
\<close>

record Publishing =
  ContentType :: string
  Body :: bytes
  DeliveryMode :: nat

record amqp_publish =
  exchange :: string
  key :: string
  mandatory :: bool
  immediate :: bool
  msg :: Publishing

definition rabbit_publish ::
  "(json \<Rightarrow> bytes) \<Rightarrow> conn option \<Rightarrow> err option \<Rightarrow> Game \<Rightarrow> log_line list \<times> amqp_publish list" where
  "rabbit_publish enc rabbitCh publish_err game =
     (case rabbitCh of
        None \<Rightarrow> ([], [])
      | Some ch \<Rightarrow>
          (case json_Marshal enc game of
             Inl e \<Rightarrow> ([Logf ''Failed to marshal game event: %v'' [AStr e]], [])
           | Inr body \<Rightarrow>
               (let p = \<lparr>exchange = ''game_events'', key = [], mandatory = False,
                         immediate = False,
                         msg = \<lparr>ContentType = ''application/json'', Body = body,
                                DeliveryMode = 2\<rparr>\<rparr>
                in case publish_err of
                     Some e \<Rightarrow> ([Logf ''Failed to publish message: %v'' [AStr e]], [p])
                   | None \<Rightarrow> ([Logf ''Published event for game %d'' [AInt (ID game)]], [p]))))"

text \<open>
  Polling variant (mq-pgmq-go/backend/main.go, lines 165-174 and 181-191). \<open>send\<close> is the
  outcome of the statement \<open>SELECT pgmq.send($1, $2)\<close>: an error or the new message id.
  \<^verbatim>\<open>
  func publishToPGMQ(db *sql.DB, gameData []byte) error {
      var msgID int64
      err := db.QueryRow("SELECT pgmq.send($1, $2)", "email_queue", string(gameData)).Scan(&msgID)
      if err != nil { return fmt.Errorf("failed to send message to PGMQ: %v", err) }
      log.Printf("Published event to PGMQ queue (message ID: %d)", msgID)
      return nil
  }
  \<close>
\<close>

record pgmq_send =
  queue_name :: string
  payload :: bytes

definition publishToPGMQ :: "err + int \<Rightarrow> bytes \<Rightarrow> err option \<times> log_line list \<times> pgmq_send list" where
  "publishToPGMQ send gameData =
     (let m = \<lparr>queue_name = ''email_queue'', payload = gameData\<rparr>
      in case send of
           Inl e \<Rightarrow> (Some (''failed to send message to PGMQ: '' @ e), [], [m])
         | Inr msgID \<Rightarrow>
             (None, [Logf ''Published event to PGMQ queue (message ID: %d)'' [AInt msgID]], [m]))"

definition pgmq_publish ::
  "(json \<Rightarrow> bytes) \<Rightarrow> err + int \<Rightarrow> Game \<Rightarrow> log_line list \<times> pgmq_send list" where
  "pgmq_publish enc send game =
     (case json_Marshal enc game of
        Inl e \<Rightarrow> ([Logf ''Failed to marshal game event: %v'' [AStr e]], [])
      | Inr body \<Rightarrow>
          (case publishToPGMQ send body of
             (Some e, ls, ms) \<Rightarrow> (ls @ [Logf ''Failed to publish to PGMQ: %v'' [AStr e]], ms)
           | (None, ls, ms) \<Rightarrow> (ls @ [Logf ''Published event for game %d'' [AInt (ID game)]], ms)))"

text \<open>
  Log variant (src/unnamed/part_009, lines 90-107 and 207-213). The error of
  \<open>json.Marshal\<close> is overwritten unread, so a failed marshal would publish the nil slice.
  \<open>write_err\<close> is what \<open>kafkaWriter.WriteMessages\<close> returns; the timestamp of the message
  is left out.
  \<^verbatim>\<open>
  body, err := json.Marshal(game)
  if err := publishToKafka(body); err != nil { log.Printf("Failed to publish to Kafka: %v", err) }
  else { log.Printf("Published event for game %d", game.ID) }
  \<close>
\<close>

record kafka_Message =
  Key :: bytes
  Value :: bytes

definition publishToKafka :: "err option \<Rightarrow> bytes \<Rightarrow> err option \<times> log_line list \<times> kafka_Message list" where
  "publishToKafka write_err gameData =
     (let message = \<lparr>Key = ''game-star-event'', Value = gameData\<rparr>
      in case write_err of
           Some e \<Rightarrow> (Some (''failed to write message to Kafka: '' @ e), [], [message])
         | None \<Rightarrow> (None, [Logf ''Published event to Kafka topic: game-events'' []], [message]))"

definition kafka_publish ::
  "(json \<Rightarrow> bytes) \<Rightarrow> err option \<Rightarrow> Game \<Rightarrow> log_line list \<times> kafka_Message list" where
  "kafka_publish enc write_err game =
     (let body = (case json_Marshal enc game of Inl e \<Rightarrow> [] | Inr b \<Rightarrow> b)
      in case publishToKafka write_err body of
           (Some e, ls, ms) \<Rightarrow> (ls @ [Logf ''Failed to publish to Kafka: %v'' [AStr e]], ms)
         | (None, ls, ms) \<Rightarrow> (ls @ [Logf ''Published event for game %d'' [AInt (ID game)]], ms))"

text \<open>
  Push/pull variant (the backend printed after mq-zero-go/email-service/main.go):
  \<^verbatim>\<open>
  body, err := json.Marshal(game)
  _, err = zmqPublisher.Send(string(body), 0)
  if err != nil { log.Printf("Failed to publish ZMQ message: %v", err) }
  \<close>
\<close>

definition zero_publish ::
  "(json \<Rightarrow> bytes) \<Rightarrow> err option \<Rightarrow> Game \<Rightarrow> log_line list \<times> bytes list" where
  "zero_publish enc send_err game =
     (let body = (case json_Marshal enc game of Inl e \<Rightarrow> [] | Inr b \<Rightarrow> b)
      in case send_err of
           Some e \<Rightarrow> ([Logf ''Failed to publish ZMQ message: %v'' [AStr e]], [body])
         | None \<Rightarrow> ([], [body]))"

subsection \<open>An example request\<close>

text \<open>The scenario of the specification: the game 7, "Zelda", has four stars and is starred
  once more.\<close>

definition zelda_games :: games_table where
  "zelda_games = Map.empty(7 \<mapsto> \<lparr>title = ''Zelda'', description = ''...'', stars = 4\<rparr>)"

definition star_request :: request where
  "star_request = \<lparr>Method = ''POST'', Path = ''/api/games/7/star''\<rparr>"

definition zelda_text :: bytes where
  "zelda_text =
     ''{'' @ [CHR 0x22] @ ''id'' @ [CHR 0x22] @ '':7,''
       @ [CHR 0x22] @ ''title'' @ [CHR 0x22] @ '':'' @ [CHR 0x22] @ ''Zelda'' @ [CHR 0x22] @ '',''
       @ [CHR 0x22] @ ''description'' @ [CHR 0x22] @ '':'' @ [CHR 0x22] @ ''...'' @ [CHR 0x22] @ '',''
       @ [CHR 0x22] @ ''stars'' @ [CHR 0x22] @ '':5}''"

section \<open>Topology of the broadcast variant\<close>

text \<open>
  The broker is not part of the repository. Its state is what the programs declare:
  queues and exchanges with their properties, and bindings. The declare methods follow
  AMQP 0-9-1: declaring a name that is free creates it, declaring a name that exists with
  the same properties changes nothing, declaring it with other properties is refused;
  binding needs both ends to exist.
\<close>

record queue_props =
  q_durable :: bool
  q_autoDelete :: bool
  q_exclusive :: bool

record exchange_props =
  kind :: string
  e_durable :: bool
  e_autoDelete :: bool
  e_internal :: bool

record broker =
  queues :: "string \<rightharpoonup> queue_props"
  exchanges :: "string \<rightharpoonup> exchange_props"
  bindings :: "(string \<times> string \<times> string) list"

definition broker0 :: broker where
  "broker0 = \<lparr>queues = Map.empty, exchanges = Map.empty, bindings = []\<rparr>"

definition QueueDeclare :: "string \<Rightarrow> queue_props \<Rightarrow> broker \<Rightarrow> err + broker" where
  "QueueDeclare name props b =
     (case queues b name of
        None \<Rightarrow> Inr (b\<lparr>queues := (queues b)(name \<mapsto> props)\<rparr>)
      | Some old \<Rightarrow> if old = props then Inr b else Inl ''PRECONDITION_FAILED'')"

definition ExchangeDeclare :: "string \<Rightarrow> exchange_props \<Rightarrow> broker \<Rightarrow> err + broker" where
  "ExchangeDeclare name props b =
     (case exchanges b name of
        None \<Rightarrow> Inr (b\<lparr>exchanges := (exchanges b)(name \<mapsto> props)\<rparr>)
      | Some old \<Rightarrow> if old = props then Inr b else Inl ''PRECONDITION_FAILED'')"

definition QueueBind :: "string \<Rightarrow> string \<Rightarrow> string \<Rightarrow> broker \<Rightarrow> err + broker" where
  "QueueBind name rkey ex b =
     (if queues b name = None \<or> exchanges b ex = None then Inl ''NOT_FOUND''
      else Inr (b\<lparr>bindings := List.insert (name, rkey, ex) (bindings b)\<rparr>))"

text \<open>
  What each program declares between opening its channel and doing its work.

  Backend (src/unnamed/part_001, lines 86-97): only the queue.
  \<^verbatim>\<open>
  _, err = rabbitCh.QueueDeclare("email_queue", true, false, false, false, nil)
  if err != nil { log.Fatal("Failed to declare queue:", err) }
  \<close>
  Email service (src/unnamed/part_003, lines 37-73) and fulfillment service
  (src/unnamed/part_002, lines 39-79): their queue, the exchange, and the binding.
  \<^verbatim>\<open>
  queue, err := ch.QueueDeclare("email_queue", true, false, false, false, nil)
  if err != nil { log.Fatalf("Failed to declare a queue: %v", err) }
  err = ch.ExchangeDeclare("game_events", "fanout", true, false, false, false, nil)
  if err != nil { log.Fatalf("Failed to declare exchange: %v", err) }
  err = ch.QueueBind(queue.Name, "", "game_events", false, nil)
  if err != nil { log.Fatalf("Failed to bind queue: %v", err) }
  \<close>
\<close>

definition rabbit_backend_provision :: "broker \<Rightarrow> string + broker" where
  "rabbit_backend_provision b =
     (case QueueDeclare ''email_queue''
             \<lparr>q_durable = True, q_autoDelete = False, q_exclusive = False\<rparr> b of
        Inl e \<Rightarrow> Inl ''Failed to declare queue:''
      | Inr b1 \<Rightarrow> Inr b1)"

definition rabbit_email_provision :: "broker \<Rightarrow> string + broker" where
  "rabbit_email_provision b =
     (case QueueDeclare ''email_queue''
             \<lparr>q_durable = True, q_autoDelete = False, q_exclusive = False\<rparr> b of
        Inl e \<Rightarrow> Inl ''Failed to declare a queue''
      | Inr b1 \<Rightarrow>
          (case ExchangeDeclare ''game_events''
                  \<lparr>kind = ''fanout'', e_durable = True, e_autoDelete = False,
                   e_internal = False\<rparr> b1 of
             Inl e \<Rightarrow> Inl ''Failed to declare exchange''
           | Inr b2 \<Rightarrow>
               (case QueueBind ''email_queue'' [] ''game_events'' b2 of
                  Inl e \<Rightarrow> Inl ''Failed to bind queue''
                | Inr b3 \<Rightarrow> Inr b3)))"

definition fulfillment_provision :: "broker \<Rightarrow> string + broker" where
  "fulfillment_provision b =
     (case QueueDeclare ''fulfillment_queue''
             \<lparr>q_durable = True, q_autoDelete = False, q_exclusive = False\<rparr> b of
        Inl e \<Rightarrow> Inl ''Failed to declare queue''
      | Inr b1 \<Rightarrow>
          (case ExchangeDeclare ''game_events''
                  \<lparr>kind = ''fanout'', e_durable = True, e_autoDelete = False,
                   e_internal = False\<rparr> b1 of
             Inl e \<Rightarrow> Inl ''Failed to declare exchange''
           | Inr b2 \<Rightarrow>
               (case QueueBind ''fulfillment_queue'' [] ''game_events'' b2 of
                  Inl e \<Rightarrow> Inl ''Failed to bind queue''
                | Inr b3 \<Rightarrow> Inr b3)))"

text \<open>The programs start in any order and any number of times against one broker; the
  first fatal error ends the run.\<close>

datatype program = Backend | EmailService | FulfillmentService

fun provision :: "program \<Rightarrow> broker \<Rightarrow> string + broker" where
  "provision Backend b = rabbit_backend_provision b"
| "provision EmailService b = rabbit_email_provision b"
| "provision FulfillmentService b = fulfillment_provision b"

fun provision_all :: "program list \<Rightarrow> broker \<Rightarrow> string + broker" where
  "provision_all [] b = Inr b"
| "provision_all (p # ps) b =
     (case provision p b of
        Inl e \<Rightarrow> Inl e
      | Inr b1 \<Rightarrow> provision_all ps b1)"

text \<open>
  Where a published message goes. The default exchange (the empty name) hands it to the
  queue named by the routing key; a fanout exchange hands a copy to every queue bound to it;
  a publish to an exchange that was never declared is refused by the broker with
  \<open>NOT_FOUND\<close>, and no queue receives the message.
\<close>

definition route :: "amqp_publish \<Rightarrow> broker \<Rightarrow> err + string list" where
  "route m b =
     (if exchange m = [] then
        Inr (if queues b (key m) = None then [] else [key m])
      else if exchanges b (exchange m) = None then Inl ''NOT_FOUND''
      else Inr (map fst (filter (\<lambda>(q, k, ex). ex = exchange m) (bindings b))))"

text \<open>The three programs agree on the properties of what they declare: a broker is in
  agreement with them when each of the three names is free or carries these properties.\<close>

definition agreed :: "broker \<Rightarrow> bool" where
  "agreed b =
     (queues b ''email_queue''
        \<in> {None, Some \<lparr>q_durable = True, q_autoDelete = False, q_exclusive = False\<rparr>}
      \<and> queues b ''fulfillment_queue''
        \<in> {None, Some \<lparr>q_durable = True, q_autoDelete = False, q_exclusive = False\<rparr>}
      \<and> exchanges b ''game_events''
        \<in> {None, Some \<lparr>kind = ''fanout'', e_durable = True, e_autoDelete = False,
                          e_internal = False\<rparr>})"

section \<open>Consumer loops\<close>

text \<open>
  A consumer is a small machine: a program point, the state of its transport, and the
  trace of what it did, newest event first. It moves by actions: a step of the loop (with
  the outcome of the call the step makes, which the environment decides), the arrival of a
  signal, a step of the goroutine that handles the signal, a publish by a producer. A run
  is a list of actions, folded over the machine from left to right; an action that is not
  enabled leaves the machine as it is.
\<close>

datatype event =
    PullStart
  | Delivered nat
  | ProcessStart nat
  | ProcessDone nat
  | Acked nat
  | Archived nat
  | Deleted nat
  | Committed nat
  | Cancelled
  | LoopExit
  | Logged string

text \<open>The properties of a trace that the specification speaks of. A message is finalized
  by an acknowledge, an archive or an offset commit; it is in flight from the start of its
  processing to the end.\<close>

fun finalized_after_processing :: "event list \<Rightarrow> bool" where
  "finalized_after_processing [] = True"
| "finalized_after_processing (e # es) =
     ((case e of
         Acked i \<Rightarrow> ProcessDone i \<in> set es
       | Archived i \<Rightarrow> ProcessDone i \<in> set es
       | Committed i \<Rightarrow> ProcessDone i \<in> set es
       | _ \<Rightarrow> True) \<and> finalized_after_processing es)"

fun no_pull_after_cancel :: "event list \<Rightarrow> bool" where
  "no_pull_after_cancel [] = True"
| "no_pull_after_cancel (e # es) =
     ((if e = PullStart then Cancelled \<notin> set es else True) \<and> no_pull_after_cancel es)"

fun in_flight :: "event list \<Rightarrow> nat option" where
  "in_flight [] = None"
| "in_flight (e # es) =
     (case e of
        ProcessStart i \<Rightarrow> Some i
      | ProcessDone i \<Rightarrow> None
      | _ \<Rightarrow> in_flight es)"

text \<open>What the log variant does instead of finalizing after processing: the offset of a
  message is committed before its processing starts.\<close>

fun committed_before_processing :: "event list \<Rightarrow> bool" where
  "committed_before_processing [] = True"
| "committed_before_processing (e # es) =
     ((case e of
         ProcessStart i \<Rightarrow> Committed i \<in> set es
       | _ \<Rightarrow> True) \<and> committed_before_processing es)"

subsection \<open>Broadcast variant: the email service\<close>

text \<open>
  src/unnamed/part_003, lines 90-106. The deliveries arrive on a Go channel; the loop
  ends when the channel is closed, and then \<open>main\<close> returns. The program never calls
  \<open>signal.Notify\<close>, so SIGINT and SIGTERM keep the default action of the Go runtime: the
  process exits, wherever the goroutine stands.
  \<^verbatim>\<open>
  forever := make(chan bool)
  go func() {
      for d := range msgs {
          log.Printf("Processing email: %s", d.Body)
          time.Sleep(100 * time.Millisecond)
          d.Ack(false)
          log.Printf("Email processed and acknowledged")
      }
      log.Println("Message channel closed")
      forever <- true
  }()
  <-forever
  \<close>
\<close>

record delivery =
  tag :: nat
  d_body :: bytes

datatype rabbit_pc = Ranging | Processing delivery | Ended

record rabbit_consumer =
  r_pc :: rabbit_pc
  r_exited :: bool
  r_trace :: "event list"

datatype rabbit_action = Next "delivery option" | Resume | Signal

definition rabbit_init :: rabbit_consumer where
  "rabbit_init = \<lparr>r_pc = Ranging, r_exited = False, r_trace = []\<rparr>"

definition rabbit_step :: "rabbit_action \<Rightarrow> rabbit_consumer \<Rightarrow> rabbit_consumer" where
  "rabbit_step a s =
     (if r_exited s then s
      else case a of
        Signal \<Rightarrow> s\<lparr>r_exited := True\<rparr>
      | Next dopt \<Rightarrow>
          (case r_pc s of
             Ranging \<Rightarrow>
               (case dopt of
                  Some d \<Rightarrow>
                    s\<lparr>r_pc := Processing d,
                      r_trace := ProcessStart (tag d) # Logged ''Processing email: %s''
                                 # Delivered (tag d) # r_trace s\<rparr>
                | None \<Rightarrow>
                    s\<lparr>r_pc := Ended, r_exited := True,
                      r_trace := LoopExit # Logged ''Message channel closed'' # r_trace s\<rparr>)
           | _ \<Rightarrow> s)
      | Resume \<Rightarrow>
          (case r_pc s of
             Processing d \<Rightarrow>
               s\<lparr>r_pc := Ranging,
                 r_trace := Logged ''Email processed and acknowledged'' # Acked (tag d)
                            # ProcessDone (tag d) # r_trace s\<rparr>
           | _ \<Rightarrow> s))"

definition rabbit_run :: "rabbit_action list \<Rightarrow> rabbit_consumer \<Rightarrow> rabbit_consumer" where
  "rabbit_run acts s = fold rabbit_step acts s"

subsection \<open>Polling variant: the email service\<close>

text \<open>
  The queue is the pgmq extension of the database, which is not part of the repository.
  Its functions, as the program uses them: \<open>send\<close> appends a row with the next id, visible
  at once; \<open>read(queue, vt, 1)\<close> takes the first row whose visibility time has come, hides
  it for \<open>vt\<close> seconds and counts the read; \<open>delete\<close> removes the row; \<open>archive\<close> moves it to
  the archive table. Time is in milliseconds.
\<close>

record Message =
  MsgID :: nat
  ReadCount :: nat
  EnqueuedAt :: nat
  VT :: nat
  RawMessage :: bytes

record pgmq =
  q_rows :: "Message list"
  a_rows :: "Message list"
  next_id :: nat

definition send :: "bytes \<Rightarrow> nat \<Rightarrow> pgmq \<Rightarrow> pgmq" where
  "send b now q =
     q\<lparr>q_rows := q_rows q @ [\<lparr>MsgID = next_id q, ReadCount = 0, EnqueuedAt = now, VT = now,
                                RawMessage = b\<rparr>],
       next_id := next_id q + 1\<rparr>"

definition read :: "nat \<Rightarrow> nat \<Rightarrow> pgmq \<Rightarrow> Message option \<times> pgmq" where
  "read vt now q =
     (case filter (\<lambda>m. VT m \<le> now) (q_rows q) of
        [] \<Rightarrow> (None, q)
      | m # _ \<Rightarrow>
          (let m1 = m\<lparr>ReadCount := ReadCount m + 1, VT := now + vt * 1000\<rparr>
           in (Some m1,
               q\<lparr>q_rows := map (\<lambda>x. if MsgID x = MsgID m then m1 else x) (q_rows q)\<rparr>)))"

definition delete :: "nat \<Rightarrow> pgmq \<Rightarrow> bool \<times> pgmq" where
  "delete i q =
     (\<exists>m \<in> set (q_rows q). MsgID m = i, q\<lparr>q_rows := filter (\<lambda>m. MsgID m \<noteq> i) (q_rows q)\<rparr>)"

definition archive :: "nat \<Rightarrow> pgmq \<Rightarrow> bool \<times> pgmq" where
  "archive i q =
     (\<exists>m \<in> set (q_rows q). MsgID m = i,
      q\<lparr>q_rows := filter (\<lambda>m. MsgID m \<noteq> i) (q_rows q),
        a_rows := a_rows q @ filter (\<lambda>m. MsgID m = i) (q_rows q)\<rparr>)"

text \<open>
  mq-pgmq-go/email-service/main.go, lines 62-134. \<open>GameEvent\<close> has the fields and tags of
  \<open>Game\<close>; \<open>json.Unmarshal\<close> into it is the function \<open>unmarshal\<close>, \<open>None\<close> when it returns
  an error. The loop runs in a goroutine; \<open>main\<close> waits for the signal, cancels the context
  and returns, which ends the process without waiting for the goroutine.
  \<^verbatim>\<open>
  go func() {
      for {
          select {
          case <-ctx.Done(): return
          default:
              var message Message
              err := db.QueryRow(`SELECT ... FROM pgmq.read($1, $2, $3)`, queueName, 30, 1).Scan(...)
              if err != nil {
                  if err == sql.ErrNoRows { time.Sleep(1 * time.Second); continue }
                  log.Printf("Error reading message: %v", err)
                  time.Sleep(5 * time.Second); continue
              }
              log.Printf("Processing email notification (ID: %d): %s", ...)
              var gameEvent GameEvent
              if err := json.Unmarshal(message.Message, &gameEvent); err != nil {
                  log.Printf("Failed to parse message: %v", err)
                  db.Exec("SELECT pgmq.delete($1, $2)", queueName, message.MsgID)
                  continue
              }
              time.Sleep(100 * time.Millisecond)
              var archived bool
              err = db.QueryRow("SELECT pgmq.archive($1::text, $2::bigint)", ...).Scan(&archived)
              if err != nil { log.Printf("Failed to archive message %d: %v", ...); continue }
              if archived { log.Printf("Email sent successfully ...") }
          }
      }
  }()
  <-sigChan
  log.Println("Shutting down email service...")
  cancel()
  \<close>
  Every statement sent to the database can fail as a whole; the outcome of the call a step
  makes is the argument \<open>DbOk\<close> or \<open>DbErr\<close> of the step.
\<close>

type_synonym GameEvent = Game

datatype pgmq_pc =
    PSelect
  | PRead
  | PDelete Message
  | PProcess Message GameEvent
  | PArchive Message GameEvent
  | PSleep nat
  | PReturned

datatype main_pc = MWaiting | MSignalled | MCancelled | MReturned

datatype db_call = DbOk | DbErr err

record pgmq_consumer =
  p_pc :: pgmq_pc
  p_main :: main_pc
  p_ctx_done :: bool
  p_db :: pgmq
  p_now :: nat
  p_trace :: "event list"

datatype pgmq_action = PSignal | PMain | PWorker db_call | PSend bytes | PTick nat

definition pgmq_init :: "pgmq \<Rightarrow> nat \<Rightarrow> pgmq_consumer" where
  "pgmq_init q now =
     \<lparr>p_pc = PSelect, p_main = MWaiting, p_ctx_done = False, p_db = q, p_now = now,
      p_trace = []\<rparr>"

definition pgmq_worker ::
  "(bytes \<Rightarrow> GameEvent option) \<Rightarrow> db_call \<Rightarrow> pgmq_consumer \<Rightarrow> pgmq_consumer" where
  "pgmq_worker unmarshal out s =
     (case p_pc s of
        PSelect \<Rightarrow>
          if p_ctx_done s then s\<lparr>p_pc := PReturned, p_trace := LoopExit # p_trace s\<rparr>
          else s\<lparr>p_pc := PRead, p_trace := PullStart # p_trace s\<rparr>
      | PRead \<Rightarrow>
          (case out of
             DbErr e \<Rightarrow>
               s\<lparr>p_pc := PSleep 5000,
                 p_trace := Logged ''Error reading message: %v'' # p_trace s\<rparr>
           | DbOk \<Rightarrow>
               (case read 30 (p_now s) (p_db s) of
                  (None, q) \<Rightarrow> s\<lparr>p_pc := PSleep 1000, p_db := q\<rparr>
                | (Some m, q) \<Rightarrow>
                    (case unmarshal (RawMessage m) of
                       None \<Rightarrow>
                         s\<lparr>p_pc := PDelete m, p_db := q,
                           p_trace := Logged ''Failed to parse message: %v''
                                      # Logged ''Processing email notification (ID: %d): %s''
                                      # Delivered (MsgID m) # p_trace s\<rparr>
                     | Some gameEvent \<Rightarrow>
                         s\<lparr>p_pc := PProcess m gameEvent, p_db := q,
                           p_trace := ProcessStart (MsgID m)
                                      # Logged ''Processing email notification (ID: %d): %s''
                                      # Delivered (MsgID m) # p_trace s\<rparr>)))
      | PDelete m \<Rightarrow>
          (case out of
             DbErr e \<Rightarrow> s\<lparr>p_pc := PSelect\<rparr>
           | DbOk \<Rightarrow>
               s\<lparr>p_pc := PSelect, p_db := snd (delete (MsgID m) (p_db s)),
                 p_trace := Deleted (MsgID m) # p_trace s\<rparr>)
      | PProcess m gameEvent \<Rightarrow>
          s\<lparr>p_pc := PArchive m gameEvent, p_now := p_now s + 100,
            p_trace := ProcessDone (MsgID m) # p_trace s\<rparr>
      | PArchive m gameEvent \<Rightarrow>
          (case out of
             DbErr e \<Rightarrow>
               s\<lparr>p_pc := PSelect,
                 p_trace := Logged ''Failed to archive message %d: %v'' # p_trace s\<rparr>
           | DbOk \<Rightarrow>
               (case archive (MsgID m) (p_db s) of
                  (True, q) \<Rightarrow>
                    s\<lparr>p_pc := PSelect, p_db := q,
                      p_trace := Logged ''Email sent successfully for game: %s (archived message %d)''
                                 # Archived (MsgID m) # p_trace s\<rparr>
                | (False, q) \<Rightarrow> s\<lparr>p_pc := PSelect, p_db := q\<rparr>))
      | PSleep d \<Rightarrow> s\<lparr>p_pc := PSelect, p_now := p_now s + d\<rparr>
      | PReturned \<Rightarrow> s)"

definition pgmq_step ::
  "(bytes \<Rightarrow> GameEvent option) \<Rightarrow> pgmq_action \<Rightarrow> pgmq_consumer \<Rightarrow> pgmq_consumer" where
  "pgmq_step unmarshal a s =
     (if p_main s = MReturned then s
      else case a of
        PSignal \<Rightarrow> if p_main s = MWaiting then s\<lparr>p_main := MSignalled\<rparr> else s
      | PMain \<Rightarrow>
          (case p_main s of
             MSignalled \<Rightarrow>
               s\<lparr>p_main := MCancelled, p_ctx_done := True,
                 p_trace := Cancelled # Logged ''Shutting down email service...'' # p_trace s\<rparr>
           | MCancelled \<Rightarrow> s\<lparr>p_main := MReturned\<rparr>
           | _ \<Rightarrow> s)
      | PWorker out \<Rightarrow> pgmq_worker unmarshal out s
      | PSend b \<Rightarrow> s\<lparr>p_db := send b (p_now s) (p_db s)\<rparr>
      | PTick d \<Rightarrow> s\<lparr>p_now := p_now s + d\<rparr>)"


definition pgmq_run ::
  "(bytes \<Rightarrow> GameEvent option) \<Rightarrow> pgmq_action list \<Rightarrow> pgmq_consumer \<Rightarrow> pgmq_consumer" where
  "pgmq_run unmarshal acts s = fold (pgmq_step unmarshal) acts s"

text \<open>For the examples: the queue as the migration leaves it, and a decoder that accepts the
  text of the example game and rejects everything else.\<close>

definition pgmq0 :: pgmq where
  "pgmq0 = \<lparr>q_rows = [], a_rows = [], next_id = 1\<rparr>"

definition decode_zelda :: "bytes \<Rightarrow> GameEvent option" where
  "decode_zelda b =
     (if b = zelda_text
      then Some \<lparr>ID = 7, Title = ''Zelda'', Description = ''...'', Stars = 5\<rparr>
      else None)"

subsection \<open>Log variant: the email service\<close>

text \<open>
  The Go program printed after src/mq-kafka-go/frontend/app.js (its lines 86-156 there).
  The reader is created by
  \<^verbatim>\<open>
  reader := kafka.NewReader(kafka.ReaderConfig{
      Brokers: strings.Split(brokers, ","), Topic: topic, GroupID: "email-service-group",
      MinBytes: 10e1, MaxBytes: 10e6, MaxWait: 1 * time.Second,
      StartOffset: kafka.LastOffset,
  })
  \<close>
  and the only method of it that the loop calls is \<open>ReadMessage\<close>. The library (kafka-go)
  and the broker are not part of the repository; of them the model keeps one partition of
  the topic, the offset committed for the group, and the position of the reader. A reader
  with a \<open>GroupID\<close> starts at the committed offset of its group; where the group has none,
  at \<open>StartOffset\<close>: the end of the log for \<open>LastOffset\<close>, its beginning for \<open>FirstOffset\<close>.
  \<open>ReadMessage\<close> fetches the next message and, for a reader with a \<open>GroupID\<close>, commits its
  offset before it returns (the documentation of \<open>ReadMessage\<close>: "If consumer groups are
  used, ReadMessage will automatically commit the offset when called. Note that this could
  result in an offset being committed before the message is fully processed."). An error
  of the fetch comes back wrapped (kafka-go v0.4.49, the version of the module file:
  \<open>fmt.Errorf("fetching message: %w", err)\<close>), so it is never the value
  \<open>context.DeadlineExceeded\<close> itself: the comparison of the loop with that value fails
  for every error of \<open>ReadMessage\<close>, and a read that times out is logged like any other.
\<close>

datatype start_offset = FirstOffset | LastOffset

record ReaderConfig =
  Topic :: string
  GroupID :: string
  StartOffset :: start_offset

definition reader_config :: ReaderConfig where
  "reader_config =
     \<lparr>Topic = ''game-events'', GroupID = ''email-service-group'', StartOffset = LastOffset\<rparr>"

record kafka_reader =
  k_log :: "bytes list"
  k_committed :: "nat option"
  k_position :: "nat option"

definition fetch_offset :: "ReaderConfig \<Rightarrow> kafka_reader \<Rightarrow> nat" where
  "fetch_offset cfg r =
     (case k_position r of
        Some p \<Rightarrow> p
      | None \<Rightarrow>
          if GroupID cfg \<noteq> [] then
            (case k_committed r of
               Some c \<Rightarrow> c
             | None \<Rightarrow>
                 (case StartOffset cfg of
                    LastOffset \<Rightarrow> length (k_log r)
                  | FirstOffset \<Rightarrow> 0))
          else 0)"

datatype read_outcome = Fetched | DeadlineExceeded | ReadFailed err

definition ReadMessage ::
  "ReaderConfig \<Rightarrow> read_outcome \<Rightarrow> kafka_reader \<Rightarrow> (err + nat \<times> bytes) \<times> kafka_reader \<times> event list" where
  "ReadMessage cfg out r =
     (let p = fetch_offset cfg r; joined = r\<lparr>k_position := Some p\<rparr>
      in case out of
           ReadFailed e \<Rightarrow> (Inl (''fetching message: '' @ e), r, [])
         | DeadlineExceeded \<Rightarrow>
             (Inl (''fetching message: '' @ ''context deadline exceeded''), joined, [])
         | Fetched \<Rightarrow>
             if p < length (k_log r) then
               (if GroupID cfg \<noteq> [] then
                  (Inr (p, k_log r ! p),
                   joined\<lparr>k_position := Some (p + 1), k_committed := Some (p + 1)\<rparr>,
                   [Committed p])
                else (Inr (p, k_log r ! p), joined\<lparr>k_position := Some (p + 1)\<rparr>, []))
             else (Inl (''fetching message: '' @ ''context deadline exceeded''), joined, []))"

text \<open>
  The loop runs in \<open>main\<close>; a goroutine waits for the signal and cancels the context.
  \<^verbatim>\<open>
  go func() { <-sigChan; log.Println("Shutting down email service..."); cancel() }()
  for {
      select {
      case <-ctx.Done():
          log.Println("Email service stopped")
          return
      default:
          ctxWithTimeout, cancelTimeout := context.WithTimeout(ctx, 5*time.Second)
          message, err := reader.ReadMessage(ctxWithTimeout)
          cancelTimeout()
          if err != nil {
              if err == context.DeadlineExceeded { continue }
              log.Printf("No new message: %v", err)
              continue
          }
          log.Printf("Processing email notification: %s", string(message.Value))
          time.Sleep(100 * time.Millisecond)
          log.Printf("Email sent successfully (partition: %d, offset: %d)", ...)
      }
  }
  \<close>
\<close>

datatype kafka_pc = KSelect | KRead | KProcess nat bytes | KReturned

datatype handler_pc = HWaiting | HSignalled | HDone

record kafka_consumer =
  k_pc :: kafka_pc
  k_handler :: handler_pc
  k_ctx_done :: bool
  k_reader :: kafka_reader
  k_trace :: "event list"

datatype kafka_action = KSignal | KHandler | KMain read_outcome | KPublish bytes

definition kafka_init :: "bytes list \<Rightarrow> nat option \<Rightarrow> kafka_consumer" where
  "kafka_init old committed =
     \<lparr>k_pc = KSelect, k_handler = HWaiting, k_ctx_done = False,
      k_reader = \<lparr>k_log = old, k_committed = committed, k_position = None\<rparr>, k_trace = []\<rparr>"

definition kafka_main :: "ReaderConfig \<Rightarrow> read_outcome \<Rightarrow> kafka_consumer \<Rightarrow> kafka_consumer" where
  "kafka_main cfg out s =
     (case k_pc s of
        KSelect \<Rightarrow>
          if k_ctx_done s then
            s\<lparr>k_pc := KReturned,
              k_trace := LoopExit # Logged ''Email service stopped'' # k_trace s\<rparr>
          else s\<lparr>k_pc := KRead, k_trace := PullStart # k_trace s\<rparr>
      | KRead \<Rightarrow>
          (case ReadMessage cfg out (k_reader s) of
             (Inl e, r, evs) \<Rightarrow>
               if e = ''context deadline exceeded'' then
                 s\<lparr>k_pc := KSelect, k_reader := r, k_trace := evs @ k_trace s\<rparr>
               else
                 s\<lparr>k_pc := KSelect, k_reader := r,
                   k_trace := Logged ''No new message: %v'' # evs @ k_trace s\<rparr>
           | (Inr (off, v), r, evs) \<Rightarrow>
               s\<lparr>k_pc := KProcess off v, k_reader := r,
                 k_trace := ProcessStart off # Logged ''Processing email notification: %s''
                            # Delivered off # evs @ k_trace s\<rparr>)
      | KProcess off v \<Rightarrow>
          s\<lparr>k_pc := KSelect,
            k_trace := Logged ''Email sent successfully (partition: %d, offset: %d)''
                       # ProcessDone off # k_trace s\<rparr>
      | KReturned \<Rightarrow> s)"

definition kafka_step :: "ReaderConfig \<Rightarrow> kafka_action \<Rightarrow> kafka_consumer \<Rightarrow> kafka_consumer" where
  "kafka_step cfg a s =
     (if k_pc s = KReturned then s
      else case a of
        KSignal \<Rightarrow> if k_handler s = HWaiting then s\<lparr>k_handler := HSignalled\<rparr> else s
      | KHandler \<Rightarrow>
          if k_handler s = HSignalled then
            s\<lparr>k_handler := HDone, k_ctx_done := True,
              k_trace := Cancelled # Logged ''Shutting down email service...'' # k_trace s\<rparr>
          else s
      | KMain out \<Rightarrow> kafka_main cfg out s
      | KPublish b \<Rightarrow> s\<lparr>k_reader := (k_reader s)\<lparr>k_log := k_log (k_reader s) @ [b]\<rparr>\<rparr>)"

definition kafka_run :: "ReaderConfig \<Rightarrow> kafka_action list \<Rightarrow> kafka_consumer \<Rightarrow> kafka_consumer" where
  "kafka_run cfg acts s = fold (kafka_step cfg) acts s"

subsection \<open>Invariants of the runs\<close>

text \<open>What holds of a consumer after every run, stated as predicates on its state: in the
  log variant, that no pull starts after the cancellation and that the message in flight is
  the one the program point holds.\<close>

definition kafka_inv :: "kafka_consumer \<Rightarrow> bool" where
  "kafka_inv s =
     (no_pull_after_cancel (k_trace s)
      \<and> (Cancelled \<in> set (k_trace s) \<longrightarrow> k_ctx_done s)
      \<and> in_flight (k_trace s) = (case k_pc s of KProcess off v \<Rightarrow> Some off | _ \<Rightarrow> None))"

text \<open>The offset an event speaks of, and: nothing below the offset \<open>n\<close> is read, committed
  or mentioned in the trace.\<close>

fun event_offset :: "event \<Rightarrow> nat option" where
  "event_offset (Delivered i) = Some i"
| "event_offset (ProcessStart i) = Some i"
| "event_offset (ProcessDone i) = Some i"
| "event_offset (Committed i) = Some i"
| "event_offset e = None"

definition kafka_fresh :: "nat \<Rightarrow> kafka_consumer \<Rightarrow> bool" where
  "kafka_fresh n s =
     (n \<le> length (k_log (k_reader s))
      \<and> (case k_position (k_reader s) of Some p \<Rightarrow> n \<le> p | None \<Rightarrow> True)
      \<and> (case k_committed (k_reader s) of Some c \<Rightarrow> n \<le> c | None \<Rightarrow> True)
      \<and> (case k_pc s of KProcess off v \<Rightarrow> n \<le> off | _ \<Rightarrow> True)
      \<and> (\<forall>e \<in> set (k_trace s). case event_offset e of Some off \<Rightarrow> n \<le> off | None \<Rightarrow> True))"

text \<open>In the polling variant: every archive follows the processing of its message, the
  worker about to archive has processed, no pull starts after the cancellation.\<close>

definition pgmq_inv :: "pgmq_consumer \<Rightarrow> bool" where
  "pgmq_inv s =
     (finalized_after_processing (p_trace s)
      \<and> (case p_pc s of
            PArchive m ev \<Rightarrow> ProcessDone (MsgID m) \<in> set (p_trace s)
          | _ \<Rightarrow> True)
      \<and> no_pull_after_cancel (p_trace s)
      \<and> (Cancelled \<in> set (p_trace s) \<longrightarrow> p_ctx_done s))"



subsection \<open>Example runs\<close>

text \<open>
  A run of the log consumer: it starts on an empty topic, joins its group on its first
  read, which times out and is logged, one event is published, and the loop reads and
  processes it. The outcome given to a step that makes no call is not looked at.
\<close>

definition kafka_example :: "kafka_action list" where
  "kafka_example =
     [KMain DeadlineExceeded, KMain DeadlineExceeded, KPublish zelda_text,
      KMain DeadlineExceeded, KMain Fetched, KMain DeadlineExceeded]"

text \<open>The same run with a signal that arrives while the message is being processed.\<close>

definition kafka_shutdown_example :: "kafka_action list" where
  "kafka_shutdown_example =
     [KMain DeadlineExceeded, KMain DeadlineExceeded, KPublish zelda_text,
      KMain DeadlineExceeded, KMain Fetched, KSignal, KHandler,
      KMain DeadlineExceeded, KMain DeadlineExceeded]"

text \<open>A delivery of the broadcast variant, and a run in which the signal arrives while it
  is being processed.\<close>

definition example_delivery :: delivery where
  "example_delivery = \<lparr>tag = 1, d_body = zelda_text\<rparr>"

definition rabbit_signal_example :: "rabbit_action list" where
  "rabbit_signal_example = [Next (Some example_delivery), Signal]"

text \<open>Runs of the polling consumer: two messages are sent, the first of them not a JSON
  document, and the worker passes its \<open>select\<close>; then the worker handles both; and a run in
  which \<open>main\<close> returns while the worker is processing.\<close>

definition pgmq_example_start :: "pgmq_action list" where
  "pgmq_example_start = [PSend ''garbage'', PSend zelda_text, PWorker DbOk]"

definition pgmq_example_rest :: "pgmq_action list" where
  "pgmq_example_rest =
     [PWorker DbOk, PWorker DbOk, PWorker DbOk, PWorker DbOk, PWorker DbOk]"



definition pgmq_exit_example :: "pgmq_action list" where
  "pgmq_exit_example =
     [PSend zelda_text, PWorker DbOk, PWorker DbOk, PSignal, PMain, PMain, PWorker DbOk]"

section \<open>Properties of the bootstrap loops\<close>

lemma zero_email_loop_calls: "calls (zero_email_loop n c s) \<le> calls s + n"
proof (induction n arbitrary: s)
  case 0
  then show ?case by simp
next
  case (Suc n)
  show ?case
  proof (cases "c (calls s)")
    case None
    then show ?thesis by simp
  next
    case (Some e)
    from Suc.IH [of "s\<lparr>calls := calls s + 1, slept_ms := slept_ms s + 250, last_err := Some e\<rparr>"]
    show ?thesis using Some by simp
  qed
qed

lemma zero_email_loop_mono: "calls s \<le> calls (zero_email_loop n c s)"
proof (induction n arbitrary: s)
  case 0
  then show ?case by simp
next
  case (Suc n)
  show ?case
  proof (cases "c (calls s)")
    case None
    then show ?thesis by simp
  next
    case (Some e)
    from Suc.IH [of "s\<lparr>calls := calls s + 1, slept_ms := slept_ms s + 250, last_err := Some e\<rparr>"]
    show ?thesis using Some by simp
  qed
qed

text \<open>Every failed attempt is followed by one sleep of 250 ms, the successful one by none.\<close>

lemma zero_email_loop_sleep:
  "0 < n \<Longrightarrow>
   slept_ms (zero_email_loop n c s) + (if last_err (zero_email_loop n c s) = None then 250 else 0)
     = slept_ms s + 250 * (calls (zero_email_loop n c s) - calls s)"
proof (induction n arbitrary: s)
  case 0
  then show ?case by simp
next
  case (Suc n)
  show ?case
  proof (cases "c (calls s)")
    case None
    then show ?thesis by simp
  next
    case (Some e)
    let ?s' = "s\<lparr>calls := calls s + 1, slept_ms := slept_ms s + 250, last_err := Some e\<rparr>"
    show ?thesis
    proof (cases n)
      case 0
      with Some show ?thesis by simp
    next
      case (Suc m)
      then have "0 < n" by simp
      from Suc.IH [OF this, of ?s'] zero_email_loop_mono [of ?s' n c]
      show ?thesis using Some by (simp add: algebra_simps)
    qed
  qed
qed

lemma zero_email_loop_fail:
  "\<forall>k. c k \<noteq> None \<Longrightarrow> 0 < n \<Longrightarrow>
   calls (zero_email_loop n c s) = calls s + n \<and> last_err (zero_email_loop n c s) \<noteq> None"
proof (induction n arbitrary: s)
  case 0
  then show ?case by simp
next
  case (Suc n)
  from Suc.prems(1) have "c (calls s) \<noteq> None" by blast
  then obtain e where e: "c (calls s) = Some e" by blast
  show ?case
  proof (cases n)
    case 0
    with e show ?thesis by simp
  next
    case (Suc m)
    then have "0 < n" by simp
    from Suc.IH [OF Suc.prems(1) this] e show ?thesis by simp
  qed
qed

lemma fulfillment_loop_eq: "fulfillment_loop n c s = zero_email_loop n c s"
  by (induction n arbitrary: s) (simp_all split: option.splits)

lemma pgmq_wait_loop_eq: "pgmq_wait_loop n c s = zero_email_loop n c s"
  by (induction n arbitrary: s) (simp_all split: option.splits)

lemma zero_email_connect_policy:
  "calls (zero_email_connect c) \<le> 120 \<and>
   slept_ms (zero_email_connect c) =
     250 * (if last_err (zero_email_connect c) = None then calls (zero_email_connect c) - 1
            else calls (zero_email_connect c))"
proof -
  have a: "calls (zero_email_connect c) \<le> 120"
    using zero_email_loop_calls [of 120 c boot0]
    by (simp add: zero_email_connect_def boot0_def)
  have b: "slept_ms (zero_email_connect c)
             + (if last_err (zero_email_connect c) = None then 250 else 0)
           = 250 * calls (zero_email_connect c)"
    using zero_email_loop_sleep [of 120 c boot0]
    by (simp add: zero_email_connect_def boot0_def)
  show ?thesis
  proof (cases "last_err (zero_email_connect c) = None")
    case True
    with b have "slept_ms (zero_email_connect c) + 250 = 250 * calls (zero_email_connect c)"
      by simp
    then have "slept_ms (zero_email_connect c) = 250 * (calls (zero_email_connect c) - 1)"
      by (simp add: algebra_simps)
    with a True show ?thesis by simp
  next
    case False
    with b have "slept_ms (zero_email_connect c) = 250 * calls (zero_email_connect c)"
      by simp
    with a False show ?thesis by (simp only: if_False simp_thms)
  qed
qed

lemma zero_email_connect_fail:
  assumes "\<forall>k. c k \<noteq> None"
  shows "calls (zero_email_connect c) = 120 \<and> last_err (zero_email_connect c) \<noteq> None"
  using zero_email_loop_fail [OF assms, of 120 boot0]
  by (simp add: zero_email_connect_def boot0_def)

lemma rabbit_email_loop_calls: "calls (rabbit_email_loop n c s) \<le> calls s + n"
proof (induction n arbitrary: s)
  case 0
  then show ?case by simp
next
  case (Suc n)
  show ?case
  proof (cases "last_err s")
    case None
    then show ?thesis by simp
  next
    case (Some e)
    from Suc.IH [of "s\<lparr>calls := calls s + 1, slept_ms := slept_ms s + 250, last_err := c (calls s)\<rparr>"]
    show ?thesis using Some by simp
  qed
qed

text \<open>Here the sleeps lie between the calls: one sleep before every call but the first.\<close>

lemma rabbit_email_loop_sleep:
  "slept_ms (rabbit_email_loop n c s) + 250 * calls s
     = slept_ms s + 250 * calls (rabbit_email_loop n c s)"
proof (induction n arbitrary: s)
  case 0
  then show ?case by simp
next
  case (Suc n)
  show ?case
  proof (cases "last_err s")
    case None
    then show ?thesis by simp
  next
    case (Some e)
    from Suc.IH [of "s\<lparr>calls := calls s + 1, slept_ms := slept_ms s + 250, last_err := c (calls s)\<rparr>"]
    show ?thesis using Some by simp
  qed
qed

lemma rabbit_email_loop_fail:
  "\<forall>k. c k \<noteq> None \<Longrightarrow> last_err s \<noteq> None \<Longrightarrow>
   calls (rabbit_email_loop n c s) = calls s + n \<and> last_err (rabbit_email_loop n c s) \<noteq> None"
proof (induction n arbitrary: s)
  case 0
  then show ?case by simp
next
  case (Suc n)
  from Suc.prems(2) obtain e where e: "last_err s = Some e" by blast
  from Suc.prems(1) have "c (calls s) \<noteq> None" by blast
  with Suc.IH [OF Suc.prems(1), of "s\<lparr>calls := calls s + 1, slept_ms := slept_ms s + 250, last_err := c (calls s)\<rparr>"] e
  show ?case by simp
qed

lemma rabbit_email_connect_policy:
  "calls (rabbit_email_connect c) \<le> 121 \<and>
   slept_ms (rabbit_email_connect c) = 250 * (calls (rabbit_email_connect c) - 1)"
proof -
  let ?s = "boot0\<lparr>calls := 1, last_err := c 0\<rparr>"
  have a: "calls (rabbit_email_connect c) \<le> 121"
    using rabbit_email_loop_calls [of 120 c ?s]
    by (simp add: rabbit_email_connect_def boot0_def)
  have "slept_ms (rabbit_email_connect c) + 250 = 250 * calls (rabbit_email_connect c)"
    using rabbit_email_loop_sleep [of 120 c ?s]
    by (simp add: rabbit_email_connect_def boot0_def)
  then have "slept_ms (rabbit_email_connect c) = 250 * (calls (rabbit_email_connect c) - 1)"
    by (simp add: algebra_simps)
  with a show ?thesis by simp
qed

lemma rabbit_email_connect_fail:
  assumes "\<forall>k. c k \<noteq> None"
  shows "calls (rabbit_email_connect c) = 121 \<and> last_err (rabbit_email_connect c) \<noteq> None"
proof -
  from assms have "c 0 \<noteq> None" by blast
  then show ?thesis
    using rabbit_email_loop_fail [OF assms, of "boot0\<lparr>calls := 1, last_err := c 0\<rparr>" 120]
    by (simp add: rabbit_email_connect_def boot0_def)
qed

lemma rabbit_backend_loop_calls: "calls (rabbit_backend_loop n d s) \<le> calls s + n"
proof (induction n arbitrary: s)
  case 0
  then show ?case by simp
next
  case (Suc n)
  show ?case
  proof (cases "d (calls s)")
    case (Connected c)
    then show ?thesis by simp
  next
    case (Refused e)
    from Suc.IH [of "s\<lparr>calls := calls s + 1, slept_ms := slept_ms s + 250, last_err := Some e, rabbitConn := None\<rparr>"]
    show ?thesis using Refused by simp
  next
    case (Unopened c e)
    from Suc.IH [of "s\<lparr>calls := calls s + 1, slept_ms := slept_ms s + 250, last_err := Some e, rabbitConn := Some (ClosedConn c)\<rparr>"]
    show ?thesis using Unopened by simp
  qed
qed

lemma rabbit_backend_loop_mono: "calls s \<le> calls (rabbit_backend_loop n d s)"
proof (induction n arbitrary: s)
  case 0
  then show ?case by simp
next
  case (Suc n)
  show ?case
  proof (cases "d (calls s)")
    case (Connected c)
    then show ?thesis by simp
  next
    case (Refused e)
    from Suc.IH [of "s\<lparr>calls := calls s + 1, slept_ms := slept_ms s + 250, last_err := Some e, rabbitConn := None\<rparr>"]
    show ?thesis using Refused by simp
  next
    case (Unopened c e)
    from Suc.IH [of "s\<lparr>calls := calls s + 1, slept_ms := slept_ms s + 250, last_err := Some e, rabbitConn := Some (ClosedConn c)\<rparr>"]
    show ?thesis using Unopened by simp
  qed
qed

text \<open>The backend, too, sleeps once after every failed call and not after the successful
  one.\<close>

lemma rabbit_backend_loop_sleep:
  "0 < n \<Longrightarrow>
   slept_ms (rabbit_backend_loop n d s)
     + (if last_err (rabbit_backend_loop n d s) = None then 250 else 0)
     = slept_ms s + 250 * (calls (rabbit_backend_loop n d s) - calls s)"
proof (induction n arbitrary: s)
  case 0
  then show ?case by simp
next
  case (Suc n)
  have step: "slept_ms (rabbit_backend_loop n d s1)
                + (if last_err (rabbit_backend_loop n d s1) = None then 250 else 0)
              = slept_ms s + 250 * (calls (rabbit_backend_loop n d s1) - calls s)"
    if s1: "calls s1 = calls s + 1" "slept_ms s1 = slept_ms s + 250" "last_err s1 \<noteq> None"
    for s1
  proof (cases n)
    case 0
    with s1 show ?thesis by auto
  next
    case (Suc m)
    then have "0 < n" by simp
    from Suc.IH [OF this, of s1] rabbit_backend_loop_mono [of s1 n d] s1
    show ?thesis by (simp add: algebra_simps)
  qed
  show ?case
  proof (cases "d (calls s)")
    case (Connected c)
    then show ?thesis by simp
  next
    case (Refused e)
    from step [of "s\<lparr>calls := calls s + 1, slept_ms := slept_ms s + 250, last_err := Some e, rabbitConn := None\<rparr>"]
    show ?thesis using Refused by simp
  next
    case (Unopened c e)
    from step [of "s\<lparr>calls := calls s + 1, slept_ms := slept_ms s + 250, last_err := Some e, rabbitConn := Some (ClosedConn c)\<rparr>"]
    show ?thesis using Unopened by simp
  qed
qed

lemma rabbit_backend_connect_policy:
  "calls (rabbit_backend_connect d) \<le> 120 \<and>
   slept_ms (rabbit_backend_connect d) =
     250 * (if last_err (rabbit_backend_connect d) = None
            then calls (rabbit_backend_connect d) - 1
            else calls (rabbit_backend_connect d))"
proof -
  have a: "calls (rabbit_backend_connect d) \<le> 120"
    using rabbit_backend_loop_calls [of 120 d rabbit_boot0]
    by (simp add: rabbit_backend_connect_def rabbit_boot0_def)
  have b: "slept_ms (rabbit_backend_connect d)
             + (if last_err (rabbit_backend_connect d) = None then 250 else 0)
           = 250 * calls (rabbit_backend_connect d)"
    using rabbit_backend_loop_sleep [of 120 d rabbit_boot0]
    by (simp add: rabbit_backend_connect_def rabbit_boot0_def)
  show ?thesis
  proof (cases "last_err (rabbit_backend_connect d) = None")
    case True
    with b have "slept_ms (rabbit_backend_connect d) + 250 = 250 * calls (rabbit_backend_connect d)"
      by simp
    then have "slept_ms (rabbit_backend_connect d) = 250 * (calls (rabbit_backend_connect d) - 1)"
      by (simp add: algebra_simps)
    with a True show ?thesis by simp
  next
    case False
    with b have "slept_ms (rabbit_backend_connect d) = 250 * calls (rabbit_backend_connect d)"
      by simp
    with a False show ?thesis by (simp only: if_False simp_thms)
  qed
qed

text \<open>When no call returns an open connection, all 120 calls are made and the global holds
  no open connection at the end.\<close>

lemma rabbit_backend_loop_fail:
  "\<forall>k c. d k \<noteq> Connected c \<Longrightarrow> \<forall>c. rabbitConn s \<noteq> Some (OpenConn c) \<Longrightarrow>
   calls (rabbit_backend_loop n d s) = calls s + n
   \<and> (\<forall>c. rabbitConn (rabbit_backend_loop n d s) \<noteq> Some (OpenConn c))"
proof (induction n arbitrary: s)
  case 0
  then show ?case by simp
next
  case (Suc n)
  show ?case
  proof (cases "d (calls s)")
    case (Connected c)
    with Suc.prems(1) show ?thesis by blast
  next
    case (Refused e)
    from Suc.IH [OF Suc.prems(1), of "s\<lparr>calls := calls s + 1, slept_ms := slept_ms s + 250, last_err := Some e, rabbitConn := None\<rparr>"]
    show ?thesis using Refused by simp
  next
    case (Unopened c e)
    from Suc.IH [OF Suc.prems(1), of "s\<lparr>calls := calls s + 1, slept_ms := slept_ms s + 250, last_err := Some e, rabbitConn := Some (ClosedConn c)\<rparr>"]
    show ?thesis using Unopened by simp
  qed
qed

lemma rabbit_backend_connect_fail:
  assumes "\<forall>k c. d k \<noteq> Connected c"
  shows "calls (rabbit_backend_connect d) = 120
         \<and> (\<forall>c. rabbitConn (rabbit_backend_connect d) \<noteq> Some (OpenConn c))"
  using rabbit_backend_loop_fail [OF assms, of rabbit_boot0 120]
  by (simp add: rabbit_backend_connect_def rabbit_boot0_def)

lemma rabbit_backend_startup_fail:
  assumes "\<forall>k c. d k \<noteq> Connected c"
  shows "rabbit_backend_startup d ch de = Fatal ''Failed to connect to RabbitMQ after retries''
         \<or> rabbit_backend_startup d ch de = Fatal ''Failed to open RabbitMQ channel:''"
proof (cases "rabbitConn (rabbit_backend_connect d)")
  case None
  then show ?thesis by (simp add: rabbit_backend_startup_def)
next
  case (Some x)
  with rabbit_backend_connect_fail [OF assms] obtain i where "x = ClosedConn i"
    by (cases x) auto
  with Some show ?thesis by (simp add: rabbit_backend_startup_def Channel_def)
qed

text \<open>When every call fails, the connection the global holds at the end is that of the last
  call.\<close>

lemma rabbit_backend_loop_last:
  "\<forall>k c. d k \<noteq> Connected c \<Longrightarrow> 0 < n \<Longrightarrow>
   rabbitConn (rabbit_backend_loop n d s) =
     (case d (calls s + n - 1) of
        Connected c \<Rightarrow> Some (OpenConn c)
      | Refused e \<Rightarrow> None
      | Unopened c e \<Rightarrow> Some (ClosedConn c))"
proof (induction n arbitrary: s)
  case 0
  then show ?case by simp
next
  case (Suc n)
  have step: "rabbitConn (rabbit_backend_loop n d s1) =
     (case d (calls s + Suc n - 1) of
        Connected c \<Rightarrow> Some (OpenConn c)
      | Refused e \<Rightarrow> None
      | Unopened c e \<Rightarrow> Some (ClosedConn c))"
    if s1: "calls s1 = calls s + 1"
      and now: "rabbitConn s1 = (case d (calls s) of
        Connected c \<Rightarrow> Some (OpenConn c)
      | Refused e \<Rightarrow> None
      | Unopened c e \<Rightarrow> Some (ClosedConn c))"
    for s1
  proof (cases n)
    case 0
    with now show ?thesis by simp
  next
    case (Suc m)
    then have "0 < n" by simp
    from Suc.IH [OF Suc.prems(1) this, of s1] s1 show ?thesis by simp
  qed
  show ?case
  proof (cases "d (calls s)")
    case (Connected c)
    with Suc.prems(1) show ?thesis by blast
  next
    case (Refused e)
    from step [of "s\<lparr>calls := calls s + 1, slept_ms := slept_ms s + 250, last_err := Some e, rabbitConn := None\<rparr>"]
    show ?thesis using Refused by simp
  next
    case (Unopened c e)
    from step [of "s\<lparr>calls := calls s + 1, slept_ms := slept_ms s + 250, last_err := Some e, rabbitConn := Some (ClosedConn c)\<rparr>"]
    show ?thesis using Unopened by simp
  qed
qed

lemma rabbit_backend_startup_refused:
  "rabbit_backend_startup refused_dial ch de
     = Fatal ''Failed to connect to RabbitMQ after retries''"
proof -
  have "\<forall>k c. refused_dial k \<noteq> Connected c" by (simp add: refused_dial_def)
  note last = rabbit_backend_loop_last [OF this, of 120 rabbit_boot0]
  have "(case refused_dial (calls rabbit_boot0 + 120 - 1) of
           Connected c \<Rightarrow> Some (OpenConn c)
         | Refused e \<Rightarrow> None
         | Unopened c e \<Rightarrow> Some (ClosedConn c)) = None"
    by (simp add: refused_dial_def)
  with last have "rabbitConn (rabbit_backend_connect refused_dial) = None"
    by (simp add: rabbit_backend_connect_def)
  then show ?thesis by (simp add: rabbit_backend_startup_def)
qed

lemma rabbit_backend_startup_rejected:
  "rabbit_backend_startup rejected_dial ch de = Fatal ''Failed to open RabbitMQ channel:''"
proof -
  have "\<forall>k c. rejected_dial k \<noteq> Connected c" by (simp add: rejected_dial_def)
  note last = rabbit_backend_loop_last [OF this, of 120 rabbit_boot0]
  have "(case rejected_dial (calls rabbit_boot0 + 120 - 1) of
           Connected c \<Rightarrow> Some (OpenConn c)
         | Refused e \<Rightarrow> None
         | Unopened c e \<Rightarrow> Some (ClosedConn c)) = Some (ClosedConn 119)"
    by (simp add: rejected_dial_def rabbit_boot0_def)
  with last have "rabbitConn (rabbit_backend_connect rejected_dial) = Some (ClosedConn 119)"
    by (simp add: rabbit_backend_connect_def)
  then show ?thesis by (simp add: rabbit_backend_startup_def Channel_def)
qed

text \<open>
  Claim C2, as amended. Every bootstrap loop is bounded by 120 iterations with sleeps of
  250 ms. The loops of the push/pull email service, of the fulfillment service and of the
  backend of the broadcast variant, and the wait for the database in the polling variant,
  make at most 120 attempts and sleep once after every failed attempt. The email service
  of the broadcast variant dials once before its loop and again at the end of each
  iteration: up to 121 attempts, with one sleep between two attempts and none after the
  last. Where the transport is a broker or a socket (the three programs of the broadcast
  variant, the email service of the push/pull variant), a run in which every attempt fails
  ends in a fatal error. The wait for the database in the polling variant is followed by no
  test: the backend starts unless its migrations fail, the email service starts in any
  case.
\<close>

theorem bootstrap_retry_policy:
  "calls (zero_email_connect c) \<le> 120
   \<and> slept_ms (zero_email_connect c) =
       250 * (if last_err (zero_email_connect c) = None then calls (zero_email_connect c) - 1
              else calls (zero_email_connect c))
   \<and> calls (fulfillment_connect c) \<le> 120
   \<and> slept_ms (fulfillment_connect c) =
       250 * (if last_err (fulfillment_connect c) = None then calls (fulfillment_connect c) - 1
              else calls (fulfillment_connect c))
   \<and> calls (rabbit_email_connect c) \<le> 121
   \<and> slept_ms (rabbit_email_connect c) = 250 * (calls (rabbit_email_connect c) - 1)
   \<and> calls (rabbit_backend_connect d) \<le> 120
   \<and> slept_ms (rabbit_backend_connect d) =
       250 * (if last_err (rabbit_backend_connect d) = None
              then calls (rabbit_backend_connect d) - 1
              else calls (rabbit_backend_connect d))
   \<and> calls (pgmq_wait c) \<le> 120
   \<and> slept_ms (pgmq_wait c) =
       250 * (if last_err (pgmq_wait c) = None then calls (pgmq_wait c) - 1
              else calls (pgmq_wait c))
   \<and> ((\<forall>k. c k \<noteq> None) \<longrightarrow>
         calls (zero_email_connect c) = 120
         \<and> zero_email_startup c = Fatal ''Failed to connect to publisher after retries''
         \<and> calls (fulfillment_connect c) = 120
         \<and> fulfillment_startup c = Fatal ''Failed to connect to RabbitMQ''
         \<and> calls (rabbit_email_connect c) = 121
         \<and> rabbit_email_startup c = Fatal ''Failed to connect to RabbitMQ'')
   \<and> ((\<forall>k x. d k \<noteq> Connected x) \<longrightarrow>
         calls (rabbit_backend_connect d) = 120
         \<and> (rabbit_backend_startup d ch de
               = Fatal ''Failed to connect to RabbitMQ after retries''
             \<or> rabbit_backend_startup d ch de = Fatal ''Failed to open RabbitMQ channel:''))
   \<and> pgmq_backend_startup c m =
        (case m of Some e \<Rightarrow> Fatal ''Failed to run migrations:'' | None \<Rightarrow> Started)
   \<and> pgmq_email_startup c = Started"
proof -
  have f: "fulfillment_connect c = zero_email_connect c"
    by (simp add: fulfillment_connect_def zero_email_connect_def fulfillment_loop_eq)
  have p: "pgmq_wait c = zero_email_connect c"
    by (simp add: pgmq_wait_def zero_email_connect_def pgmq_wait_loop_eq)
  note z = zero_email_connect_policy [of c]
  note r = rabbit_email_connect_policy [of c]
  note b = rabbit_backend_connect_policy [of d]
  have allfail: "calls (zero_email_connect c) = 120
         \<and> zero_email_startup c = Fatal ''Failed to connect to publisher after retries''
         \<and> calls (fulfillment_connect c) = 120
         \<and> fulfillment_startup c = Fatal ''Failed to connect to RabbitMQ''
         \<and> calls (rabbit_email_connect c) = 121
         \<and> rabbit_email_startup c = Fatal ''Failed to connect to RabbitMQ''"
    if h: "\<forall>k. c k \<noteq> None"
  proof -
    from zero_email_connect_fail [OF h] obtain e
      where 1: "calls (zero_email_connect c) = 120" and 2: "last_err (zero_email_connect c) = Some e"
      by blast
    from rabbit_email_connect_fail [OF h] obtain e'
      where 3: "calls (rabbit_email_connect c) = 121" and 4: "last_err (rabbit_email_connect c) = Some e'"
      by blast
    show ?thesis
      by (simp add: 1 2 3 4 f zero_email_startup_def fulfillment_startup_def rabbit_email_startup_def)
  qed
  have backfail: "calls (rabbit_backend_connect d) = 120
         \<and> (rabbit_backend_startup d ch de
               = Fatal ''Failed to connect to RabbitMQ after retries''
             \<or> rabbit_backend_startup d ch de = Fatal ''Failed to open RabbitMQ channel:'')"
    if h: "\<forall>k x. d k \<noteq> Connected x"
    using rabbit_backend_connect_fail [OF h] rabbit_backend_startup_fail [OF h, of ch de]
    by blast
  have pg: "pgmq_backend_startup c m =
        (case m of Some e \<Rightarrow> Fatal ''Failed to run migrations:'' | None \<Rightarrow> Started)
   \<and> pgmq_email_startup c = Started"
    by (simp add: pgmq_backend_startup_def pgmq_email_startup_def)
  from z r b allfail backfail pg show ?thesis
    unfolding f p by blast
qed

text \<open>Witness for C2: the endpoint that refuses every call. 120 attempts and 30 seconds of
  sleep in the push/pull email service, 121 attempts and 30 seconds in the broadcast email
  service, 120 attempts in the backend of the broadcast variant, a fatal error in each; and
  the backend against a broker that rejects every handshake, which ends at the channel.\<close>

theorem bootstrap_retry_policy_witness:
  "calls (zero_email_connect refused) = 120
   \<and> zero_email_startup refused = Fatal ''Failed to connect to publisher after retries''
   \<and> slept_ms (zero_email_connect refused) = 30000
   \<and> calls (rabbit_email_connect refused) = 121
   \<and> slept_ms (rabbit_email_connect refused) = 30000
   \<and> rabbit_email_startup refused = Fatal ''Failed to connect to RabbitMQ''
   \<and> calls (rabbit_backend_connect refused_dial) = 120
   \<and> rabbit_backend_startup refused_dial None None
        = Fatal ''Failed to connect to RabbitMQ after retries''
   \<and> calls (rabbit_backend_connect rejected_dial) = 120
   \<and> rabbit_backend_startup rejected_dial None None
        = Fatal ''Failed to open RabbitMQ channel:''"
proof -
  have h1: "\<forall>k. refused k \<noteq> None" by (simp add: refused_def)
  have h2: "\<forall>k x. refused_dial k \<noteq> Connected x" by (simp add: refused_dial_def)
  have h3: "\<forall>k x. rejected_dial k \<noteq> Connected x" by (simp add: rejected_dial_def)
  from h1 h2 bootstrap_retry_policy [of refused refused_dial None None None]
  have a: "calls (zero_email_connect refused) = 120"
    and b: "zero_email_startup refused = Fatal ''Failed to connect to publisher after retries''"
    and c: "slept_ms (zero_email_connect refused) =
       250 * (if last_err (zero_email_connect refused) = None then calls (zero_email_connect refused) - 1
              else calls (zero_email_connect refused))"
    and d: "calls (rabbit_email_connect refused) = 121"
    and e: "slept_ms (rabbit_email_connect refused) = 250 * (calls (rabbit_email_connect refused) - 1)"
    and f: "rabbit_email_startup refused = Fatal ''Failed to connect to RabbitMQ''"
    and g: "calls (rabbit_backend_connect refused_dial) = 120"
    by blast+
  from h3 bootstrap_retry_policy [of refused rejected_dial None None None]
  have i: "calls (rabbit_backend_connect rejected_dial) = 120" by blast
  from b have "last_err (zero_email_connect refused) \<noteq> None"
    by (auto simp: zero_email_startup_def split: option.splits)
  with a c have c': "slept_ms (zero_email_connect refused) = 30000" by simp
  from d e have e': "slept_ms (rabbit_email_connect refused) = 30000" by simp
  from a b c' d e' f g i rabbit_backend_startup_refused [of None None]
    rabbit_backend_startup_rejected [of None None]
  show ?thesis by blast
qed

text \<open>Counterexample for C2 as stated: against an endpoint that refuses every call the
  email service of the broadcast variant makes 121 attempts, not at most 120; and the email
  service of the polling variant, whose 120 pings all fail, reports nothing and starts its
  consumer loop.\<close>

theorem bootstrap_120_attempts_counterexample:
  "calls (rabbit_email_connect refused) = 121
   \<and> \<not> calls (rabbit_email_connect refused) \<le> 120
   \<and> pgmq_email_startup refused = Started"
proof -
  have "\<forall>k. refused k \<noteq> None" by (simp add: refused_def)
  from rabbit_email_connect_fail [OF this] show ?thesis
    by (simp add: pgmq_email_startup_def)
qed

section \<open>Properties of the write path\<close>

lemma star_path_example: "star_path (Path star_request) = Inr 7"
  by (simp add: star_request_def star_path_def TrimPrefix_def Atoi_def digit_def)

lemma zelda_text_eq:
  "json_text (Game_json \<lparr>ID = 7, Title = ''Zelda'', Description = ''...'', Stars = 5\<rparr>)
     = zelda_text"
  by (simp add: Game_json_def show_int_def digit_char_def zelda_text_def)

lemma handle_star_ok:
  assumes "star_path (Path r) = Inr gid" and "Method r = ''POST''" and "tbl gid = Some row"
  shows "handleGameActions publish enc None r tbl =
     \<lparr>response =
        \<lparr>status = 200, content_type = ''application/json'',
         written = enc (Game_json \<lparr>ID = gid, Title = title row,
                                   Description = description row, Stars = stars row + 1\<rparr>)
                   @ [CHR 0x0A]\<rparr>,
      games = tbl(gid \<mapsto> row\<lparr>stars := stars row + 1\<rparr>),
      logged = fst (publish \<lparr>ID = gid, Title = title row, Description = description row,
                              Stars = stars row + 1\<rparr>),
      published = snd (publish \<lparr>ID = gid, Title = title row, Description = description row,
                                 Stars = stars row + 1\<rparr>)\<rparr>"
  using assms by (simp add: handleGameActions_def add_star_def split: prod.splits)

lemma handle_published:
  assumes "m \<in> set (published (handleGameActions publish enc f r tbl))"
  shows "\<exists>gid row. star_path (Path r) = Inr gid \<and> tbl gid = Some row
           \<and> m \<in> set (snd (publish \<lparr>ID = gid, Title = title row,
                                      Description = description row, Stars = stars row + 1\<rparr>))"
  using assms
  by (auto simp: handleGameActions_def add_star_def
           split: sum.splits if_splits option.splits prod.splits sql_result.splits)

lemma rabbit_publish_sent:
  "m \<in> set (snd (rabbit_publish enc ch pe g)) \<Longrightarrow>
   m = \<lparr>exchange = ''game_events'', key = [], mandatory = False, immediate = False,
        msg = \<lparr>ContentType = ''application/json'', Body = enc (Game_json g),
               DeliveryMode = 2\<rparr>\<rparr>"
  by (auto simp: rabbit_publish_def json_Marshal_def Let_def split: option.splits)





text \<open>
  Claim C3. When the statement that adds the star has committed and the publish that
  follows fails, the handler logs the failure, leaves the incremented row in the table and
  answers 200 with the updated game; so in the backends of the broadcast, polling, log
  and push/pull variants.
\<close>

theorem publish_failure_keeps_write:
  assumes "star_path (Path r) = Inr gid" and "Method r = ''POST''" and "tbl gid = Some row"
  shows
    "(let game = \<lparr>ID = gid, Title = title row, Description = description row,
                  Stars = stars row + 1\<rparr>;
          ok = \<lparr>status = 200, content_type = ''application/json'',
                written = enc (Game_json game) @ [CHR 0x0A]\<rparr>;
          tbl1 = tbl(gid \<mapsto> row\<lparr>stars := stars row + 1\<rparr>);
          rabbit = handleGameActions (rabbit_publish enc (Some ch) (Some e)) enc None r tbl;
          pgmq = handleGameActions (pgmq_publish enc (Inl e)) enc None r tbl;
          kafka = handleGameActions (kafka_publish enc (Some e)) enc None r tbl;
          zero = handleGameActions (zero_publish enc (Some e)) enc None r tbl
      in response rabbit = ok \<and> games rabbit = tbl1
         \<and> logged rabbit = [Logf ''Failed to publish message: %v'' [AStr e]]
         \<and> response pgmq = ok \<and> games pgmq = tbl1
         \<and> logged pgmq = [Logf ''Failed to publish to PGMQ: %v''
                              [AStr (''failed to send message to PGMQ: '' @ e)]]
         \<and> response kafka = ok \<and> games kafka = tbl1
         \<and> logged kafka = [Logf ''Failed to publish to Kafka: %v''
                               [AStr (''failed to write message to Kafka: '' @ e)]]
         \<and> response zero = ok \<and> games zero = tbl1
         \<and> logged zero = [Logf ''Failed to publish ZMQ message: %v'' [AStr e]])"
  by (simp add: handle_star_ok [of r gid tbl row, OF assms] Let_def rabbit_publish_def pgmq_publish_def
        publishToPGMQ_def kafka_publish_def publishToKafka_def zero_publish_def json_Marshal_def)

text \<open>Witness for C3: game 7 with four stars is starred while the transport is down. The
  answer is 200 with the game at five stars, the row has five stars, the failure is
  logged.\<close>

theorem publish_failure_keeps_write_witness:
  "response (handleGameActions (rabbit_publish json_text (Some 1) (Some ''channel closed''))
               json_text None star_request zelda_games)
     = \<lparr>status = 200, content_type = ''application/json'', written = zelda_text @ [CHR 0x0A]\<rparr>
   \<and> games (handleGameActions (rabbit_publish json_text (Some 1) (Some ''channel closed''))
               json_text None star_request zelda_games) 7
     = Some \<lparr>title = ''Zelda'', description = ''...'', stars = 5\<rparr>
   \<and> logged (handleGameActions (pgmq_publish json_text (Inl ''channel closed''))
               json_text None star_request zelda_games)
     = [Logf ''Failed to publish to PGMQ: %v''
          [AStr ''failed to send message to PGMQ: channel closed'']]"
proof -
  have m: "Method star_request = ''POST''" by (simp add: star_request_def)
  have t: "zelda_games 7 = Some \<lparr>title = ''Zelda'', description = ''...'', stars = 4\<rparr>"
    by (simp add: zelda_games_def)
  from publish_failure_keeps_write [of star_request 7 zelda_games _ json_text 1 "''channel closed''", OF star_path_example m t]
  show ?thesis by (simp add: Let_def zelda_text_eq)
qed



text \<open>
  Claim C9. The broadcast variant is the one whose transport takes a durability mark per
  message: every message the backend publishes goes to the exchange \<open>game_events\<close> with
  delivery mode 2 (persistent), set in the \<open>amqp.Publishing\<close> before the call of \<open>Publish\<close>.
\<close>

theorem rabbit_publish_is_persistent:
  "\<forall>m \<in> set (published (handleGameActions (rabbit_publish enc ch pe) enc f r tbl)).
      DeliveryMode (msg m) = 2 \<and> exchange m = ''game_events'' \<and> key m = []
      \<and> ContentType (msg m) = ''application/json''"
proof
  fix m assume "m \<in> set (published (handleGameActions (rabbit_publish enc ch pe) enc f r tbl))"
  from handle_published [OF this] obtain g
    where "m \<in> set (snd (rabbit_publish enc ch pe g))" by blast
  from rabbit_publish_sent [OF this]
  show "DeliveryMode (msg m) = 2 \<and> exchange m = ''game_events'' \<and> key m = []
      \<and> ContentType (msg m) = ''application/json''"
    by simp
qed

text \<open>Witness for C9: the one message published for the starred game 7 carries delivery
  mode 2.\<close>

theorem rabbit_publish_is_persistent_witness:
  "published (handleGameActions (rabbit_publish json_text (Some 1) None) json_text None
                star_request zelda_games)
     = [\<lparr>exchange = ''game_events'', key = [], mandatory = False, immediate = False,
         msg = \<lparr>ContentType = ''application/json'', Body = zelda_text, DeliveryMode = 2\<rparr>\<rparr>]
   \<and> DeliveryMode (msg (hd (published (handleGameActions (rabbit_publish json_text (Some 1) None)
         json_text None star_request zelda_games)))) = 2"
proof -
  have m: "Method star_request = ''POST''" by (simp add: star_request_def)
  have t: "zelda_games 7 = Some \<lparr>title = ''Zelda'', description = ''...'', stars = 4\<rparr>"
    by (simp add: zelda_games_def)
  have p: "published (handleGameActions (rabbit_publish json_text (Some 1) None) json_text None
                star_request zelda_games)
     = [\<lparr>exchange = ''game_events'', key = [], mandatory = False, immediate = False,
         msg = \<lparr>ContentType = ''application/json'', Body = zelda_text, DeliveryMode = 2\<rparr>\<rparr>]"
    by (simp add: handle_star_ok [of star_request 7 zelda_games _, OF star_path_example m t] rabbit_publish_def
          json_Marshal_def zelda_text_eq)
  from rabbit_publish_is_persistent
         [of json_text "Some 1" None None star_request zelda_games]
  show ?thesis unfolding p by simp
qed

section \<open>Properties of the topology\<close>

lemma agreed_broker0: "agreed broker0"
  by (simp add: agreed_def broker0_def)

lemma QueueDeclare_ok:
  assumes "queues b n = None \<or> queues b n = Some props"
  shows "QueueDeclare n props b = Inr (b\<lparr>queues := (queues b)(n \<mapsto> props)\<rparr>)"
proof (cases "queues b n")
  case None
  then show ?thesis by (simp add: QueueDeclare_def)
next
  case (Some old)
  with assms have "old = props" by simp
  with Some have "(queues b)(n \<mapsto> props) = queues b" by (simp add: fun_upd_idem)
  with Some \<open>old = props\<close> show ?thesis by (simp add: QueueDeclare_def)
qed

lemma ExchangeDeclare_ok:
  assumes "exchanges b n = None \<or> exchanges b n = Some props"
  shows "ExchangeDeclare n props b = Inr (b\<lparr>exchanges := (exchanges b)(n \<mapsto> props)\<rparr>)"
proof (cases "exchanges b n")
  case None
  then show ?thesis by (simp add: ExchangeDeclare_def)
next
  case (Some old)
  with assms have "old = props" by simp
  with Some have "(exchanges b)(n \<mapsto> props) = exchanges b" by (simp add: fun_upd_idem)
  with Some \<open>old = props\<close> show ?thesis by (simp add: ExchangeDeclare_def)
qed

lemma backend_provision_agreed:
  assumes "agreed b"
  shows "\<exists>b1. rabbit_backend_provision b = Inr b1 \<and> agreed b1"
proof -
  from assms have "queues b ''email_queue'' = None \<or> queues b ''email_queue''
      = Some \<lparr>q_durable = True, q_autoDelete = False, q_exclusive = False\<rparr>"
    by (simp add: agreed_def)
  from QueueDeclare_ok [OF this] assms show ?thesis
    by (simp add: rabbit_backend_provision_def agreed_def)
qed

lemma email_provision_agreed:
  assumes "agreed b"
  shows "\<exists>b1. rabbit_email_provision b = Inr b1 \<and> agreed b1"
proof -
  let ?qp = "\<lparr>q_durable = True, q_autoDelete = False, q_exclusive = False\<rparr>"
  let ?ep = "\<lparr>kind = ''fanout'', e_durable = True, e_autoDelete = False, e_internal = False\<rparr>"
  let ?b1 = "b\<lparr>queues := (queues b)(''email_queue'' \<mapsto> ?qp)\<rparr>"
  let ?b2 = "?b1\<lparr>exchanges := (exchanges ?b1)(''game_events'' \<mapsto> ?ep)\<rparr>"
  from assms have "queues b ''email_queue'' = None \<or> queues b ''email_queue'' = Some ?qp"
    by (simp add: agreed_def)
  from QueueDeclare_ok [OF this] have 1: "QueueDeclare ''email_queue'' ?qp b = Inr ?b1" .
  from assms have "exchanges ?b1 ''game_events'' = None \<or> exchanges ?b1 ''game_events'' = Some ?ep"
    by (simp add: agreed_def)
  from ExchangeDeclare_ok [OF this] have 2: "ExchangeDeclare ''game_events'' ?ep ?b1 = Inr ?b2" .
  have 3: "QueueBind ''email_queue'' [] ''game_events'' ?b2
             = Inr (?b2\<lparr>bindings := List.insert (''email_queue'', [], ''game_events'') (bindings ?b2)\<rparr>)"
    by (simp add: QueueBind_def)
  have "rabbit_email_provision b
          = Inr (?b2\<lparr>bindings := List.insert (''email_queue'', [], ''game_events'') (bindings ?b2)\<rparr>)"
    unfolding rabbit_email_provision_def by (simp only: 1 2 3 sum.case)
  moreover from assms
  have "agreed (?b2\<lparr>bindings := List.insert (''email_queue'', [], ''game_events'') (bindings ?b2)\<rparr>)"
    by (simp add: agreed_def)
  ultimately show ?thesis by blast
qed

lemma fulfillment_provision_agreed:
  assumes "agreed b"
  shows "\<exists>b1. fulfillment_provision b = Inr b1 \<and> agreed b1"
proof -
  let ?qp = "\<lparr>q_durable = True, q_autoDelete = False, q_exclusive = False\<rparr>"
  let ?ep = "\<lparr>kind = ''fanout'', e_durable = True, e_autoDelete = False, e_internal = False\<rparr>"
  let ?b1 = "b\<lparr>queues := (queues b)(''fulfillment_queue'' \<mapsto> ?qp)\<rparr>"
  let ?b2 = "?b1\<lparr>exchanges := (exchanges ?b1)(''game_events'' \<mapsto> ?ep)\<rparr>"
  from assms
  have "queues b ''fulfillment_queue'' = None \<or> queues b ''fulfillment_queue'' = Some ?qp"
    by (simp add: agreed_def)
  from QueueDeclare_ok [OF this] have 1: "QueueDeclare ''fulfillment_queue'' ?qp b = Inr ?b1" .
  from assms have "exchanges ?b1 ''game_events'' = None \<or> exchanges ?b1 ''game_events'' = Some ?ep"
    by (simp add: agreed_def)
  from ExchangeDeclare_ok [OF this] have 2: "ExchangeDeclare ''game_events'' ?ep ?b1 = Inr ?b2" .
  have 3: "QueueBind ''fulfillment_queue'' [] ''game_events'' ?b2
             = Inr (?b2\<lparr>bindings := List.insert (''fulfillment_queue'', [], ''game_events'') (bindings ?b2)\<rparr>)"
    by (simp add: QueueBind_def)
  have "fulfillment_provision b
          = Inr (?b2\<lparr>bindings := List.insert (''fulfillment_queue'', [], ''game_events'') (bindings ?b2)\<rparr>)"
    unfolding fulfillment_provision_def by (simp only: 1 2 3 sum.case)
  moreover from assms
  have "agreed (?b2\<lparr>bindings := List.insert (''fulfillment_queue'', [], ''game_events'') (bindings ?b2)\<rparr>)"
    by (simp add: agreed_def)
  ultimately show ?thesis by blast
qed

lemma provision_agreed: "agreed b \<Longrightarrow> \<exists>b1. provision p b = Inr b1 \<and> agreed b1"
  by (cases p)
     (simp_all add: backend_provision_agreed email_provision_agreed
        fulfillment_provision_agreed)

lemma provision_all_agreed: "agreed b \<Longrightarrow> \<exists>b1. provision_all ps b = Inr b1 \<and> agreed b1"
proof (induction ps arbitrary: b)
  case Nil
  then show ?case by simp
next
  case (Cons p ps)
  from provision_agreed [OF Cons.prems, of p] obtain b1
    where 1: "provision p b = Inr b1" and 2: "agreed b1" by blast
  from Cons.IH [OF 2] 1 show ?case by simp
qed

text \<open>A second declaration of what a first one has made changes nothing.\<close>

lemma QueueDeclare_twice:
  "QueueDeclare n props b = Inr b1 \<Longrightarrow> QueueDeclare n props b1 = Inr b1"
  by (cases "queues b n") (auto simp: QueueDeclare_def split: if_splits)

lemma ExchangeDeclare_twice:
  "ExchangeDeclare n props b = Inr b1 \<Longrightarrow> ExchangeDeclare n props b1 = Inr b1"
  by (cases "exchanges b n") (auto simp: ExchangeDeclare_def split: if_splits)

lemma QueueBind_twice:
  "QueueBind n k ex b = Inr b1 \<Longrightarrow> QueueBind n k ex b1 = Inr b1"
  by (auto simp: QueueBind_def split: if_splits)

lemma QueueDeclare_exchanges:
  "QueueDeclare n props b = Inr b1 \<Longrightarrow> exchanges b1 = exchanges b \<and> bindings b1 = bindings b"
  by (cases "queues b n") (auto simp: QueueDeclare_def split: if_splits)

lemma ExchangeDeclare_queues:
  "ExchangeDeclare n props b = Inr b1 \<Longrightarrow> queues b1 = queues b \<and> bindings b1 = bindings b"
  by (cases "exchanges b n") (auto simp: ExchangeDeclare_def split: if_splits)

lemma QueueBind_names:
  "QueueBind n k ex b = Inr b1 \<Longrightarrow> queues b1 = queues b \<and> exchanges b1 = exchanges b"
  by (auto simp: QueueBind_def split: if_splits)

lemma QueueDeclare_sets:
  "QueueDeclare n props b = Inr b1 \<Longrightarrow> queues b1 n = Some props"
  by (cases "queues b n") (auto simp: QueueDeclare_def split: if_splits)

lemma ExchangeDeclare_sets:
  "ExchangeDeclare n props b = Inr b1 \<Longrightarrow> exchanges b1 n = Some props"
  by (cases "exchanges b n") (auto simp: ExchangeDeclare_def split: if_splits)

lemma declare_bind_twice:
  assumes 1: "QueueDeclare q qp b = Inr b1"
    and 2: "ExchangeDeclare ex ep b1 = Inr b2"
    and 3: "QueueBind q k ex b2 = Inr b3"
  shows "QueueDeclare q qp b3 = Inr b3 \<and> ExchangeDeclare ex ep b3 = Inr b3
         \<and> QueueBind q k ex b3 = Inr b3"
proof -
  from QueueDeclare_sets [OF 1] ExchangeDeclare_queues [OF 2] QueueBind_names [OF 3]
  have "queues b3 q = Some qp" by simp
  then have a: "QueueDeclare q qp b3 = Inr b3" by (simp add: QueueDeclare_def)
  from ExchangeDeclare_sets [OF 2] QueueBind_names [OF 3]
  have "exchanges b3 ex = Some ep" by simp
  then have b: "ExchangeDeclare ex ep b3 = Inr b3" by (simp add: ExchangeDeclare_def)
  from a b QueueBind_twice [OF 3] show ?thesis by simp
qed

lemma provision_twice:
  assumes "provision p b = Inr b1"
  shows "provision p b1 = Inr b1"
proof (cases p)
  case Backend
  with assms obtain b' where "QueueDeclare ''email_queue''
        \<lparr>q_durable = True, q_autoDelete = False, q_exclusive = False\<rparr> b = Inr b'" "b' = b1"
    by (auto simp: rabbit_backend_provision_def split: sum.splits)
  with QueueDeclare_twice [of "''email_queue''" _ b b1] Backend show ?thesis
    by (simp add: rabbit_backend_provision_def)
next
  case EmailService
  with assms obtain x y where
    "QueueDeclare ''email_queue'' \<lparr>q_durable = True, q_autoDelete = False, q_exclusive = False\<rparr> b = Inr x"
    "ExchangeDeclare ''game_events'' \<lparr>kind = ''fanout'', e_durable = True, e_autoDelete = False, e_internal = False\<rparr> x = Inr y"
    "QueueBind ''email_queue'' [] ''game_events'' y = Inr b1"
    by (auto simp: rabbit_email_provision_def split: sum.splits)
  from declare_bind_twice [OF this] EmailService show ?thesis
    by (simp add: rabbit_email_provision_def)
next
  case FulfillmentService
  with assms obtain x y where
    "QueueDeclare ''fulfillment_queue'' \<lparr>q_durable = True, q_autoDelete = False, q_exclusive = False\<rparr> b = Inr x"
    "ExchangeDeclare ''game_events'' \<lparr>kind = ''fanout'', e_durable = True, e_autoDelete = False, e_internal = False\<rparr> x = Inr y"
    "QueueBind ''fulfillment_queue'' [] ''game_events'' y = Inr b1"
    by (auto simp: fulfillment_provision_def split: sum.splits)
  from declare_bind_twice [OF this] FulfillmentService show ?thesis
    by (simp add: fulfillment_provision_def)
qed


text \<open>
  Claim C6. Provisioning is idempotent. Backend, email service and fulfillment service
  declare \<open>email_queue\<close>, \<open>fulfillment_queue\<close> and \<open>game_events\<close> with the same properties
  wherever two of them declare the same name, so against a fresh broker they can start in
  any order and any number of times and no declaration fails; and a program that has
  provisioned once provisions again without error and without changing the broker.
\<close>

theorem provisioning_is_idempotent:
  "(\<exists>b. provision_all ps broker0 = Inr b)
   \<and> (provision p b0 = Inr b1 \<longrightarrow> provision p b1 = Inr b1)"
  using provision_all_agreed [OF agreed_broker0, of ps] provision_twice [of p b0 b1]
  by blast

text \<open>Witness for C6: five starts in a row succeed, and the email service started against
  the topology it has itself created leaves it as it is.\<close>

theorem provisioning_is_idempotent_witness:
  "(\<exists>b. provision_all [Backend, EmailService, FulfillmentService, EmailService, Backend]
           broker0 = Inr b)
   \<and> provision EmailService
        \<lparr>queues = Map.empty(''email_queue'' \<mapsto>
                     \<lparr>q_durable = True, q_autoDelete = False, q_exclusive = False\<rparr>),
         exchanges = Map.empty(''game_events'' \<mapsto>
                     \<lparr>kind = ''fanout'', e_durable = True, e_autoDelete = False,
                      e_internal = False\<rparr>),
         bindings = [(''email_queue'', [], ''game_events'')]\<rparr>
     = Inr \<lparr>queues = Map.empty(''email_queue'' \<mapsto>
                     \<lparr>q_durable = True, q_autoDelete = False, q_exclusive = False\<rparr>),
         exchanges = Map.empty(''game_events'' \<mapsto>
                     \<lparr>kind = ''fanout'', e_durable = True, e_autoDelete = False,
                      e_internal = False\<rparr>),
         bindings = [(''email_queue'', [], ''game_events'')]\<rparr>"
proof -
  have first: "provision EmailService broker0
     = Inr \<lparr>queues = Map.empty(''email_queue'' \<mapsto>
                     \<lparr>q_durable = True, q_autoDelete = False, q_exclusive = False\<rparr>),
         exchanges = Map.empty(''game_events'' \<mapsto>
                     \<lparr>kind = ''fanout'', e_durable = True, e_autoDelete = False,
                      e_internal = False\<rparr>),
         bindings = [(''email_queue'', [], ''game_events'')]\<rparr>"
    by (simp add: rabbit_email_provision_def QueueDeclare_def ExchangeDeclare_def
          QueueBind_def broker0_def)
  from provisioning_is_idempotent
         [of "[Backend, EmailService, FulfillmentService, EmailService, Backend]"
             EmailService broker0] first
  show ?thesis by simp
qed

text \<open>
  Claim C5 does not hold of the backend of the broadcast variant. Its bootstrap declares
  the queue \<open>email_queue\<close> and nothing else, and its handler publishes to the exchange
  \<open>game_events\<close>. Started against a fresh broker, the backend leaves \<open>game_events\<close>
  undeclared, and the publish of the first starred game is refused with \<open>NOT_FOUND\<close>. The
  email service declares the exchange before it binds to it; after its bootstrap the same
  publish reaches \<open>email_queue\<close>.
\<close>

theorem backend_publishes_to_undeclared_exchange:
  "(case rabbit_backend_provision broker0 of
      Inl e \<Rightarrow> False
    | Inr b \<Rightarrow>
        exchanges b ''game_events'' = None
        \<and> map exchange (published (handleGameActions (rabbit_publish json_text (Some 1) None)
                 json_text None star_request zelda_games)) = [''game_events'']
        \<and> route (hd (published (handleGameActions (rabbit_publish json_text (Some 1) None)
                 json_text None star_request zelda_games))) b = Inl ''NOT_FOUND'')
   \<and> (case rabbit_email_provision broker0 of
      Inl e \<Rightarrow> False
    | Inr b \<Rightarrow>
        route (hd (published (handleGameActions (rabbit_publish json_text (Some 1) None)
                 json_text None star_request zelda_games))) b = Inr [''email_queue''])"
proof -
  have m: "Method star_request = ''POST''" by (simp add: star_request_def)
  have t: "zelda_games 7 = Some \<lparr>title = ''Zelda'', description = ''...'', stars = 4\<rparr>"
    by (simp add: zelda_games_def)
  have p: "published (handleGameActions (rabbit_publish json_text (Some 1) None) json_text None
                star_request zelda_games)
     = [\<lparr>exchange = ''game_events'', key = [], mandatory = False, immediate = False,
         msg = \<lparr>ContentType = ''application/json'', Body = zelda_text, DeliveryMode = 2\<rparr>\<rparr>]"
    by (simp add: handle_star_ok [of star_request 7 zelda_games _, OF star_path_example m t]
          rabbit_publish_def json_Marshal_def zelda_text_eq)
  show ?thesis
    unfolding p
    by (simp add: rabbit_backend_provision_def rabbit_email_provision_def QueueDeclare_def
          ExchangeDeclare_def QueueBind_def broker0_def route_def)
qed

section \<open>Properties of the consumer loops\<close>

subsection \<open>Broadcast variant\<close>

lemma rabbit_step_finalized:
  "finalized_after_processing (r_trace s) \<Longrightarrow>
   finalized_after_processing (r_trace (rabbit_step a s))"
  by (cases a; cases "r_pc s")
     (auto simp: rabbit_step_def split: option.splits)

lemma rabbit_run_finalized:
  "finalized_after_processing (r_trace s) \<Longrightarrow>
   finalized_after_processing (r_trace (rabbit_run acts s))"
  unfolding rabbit_run_def
  by (induction acts arbitrary: s) (simp_all add: rabbit_step_finalized)

subsection \<open>Log variant\<close>

lemma ReadMessage_events:
  "ReadMessage cfg out r = (res, r1, evs) \<Longrightarrow>
   (case res of
      Inl e \<Rightarrow> evs = []
    | Inr (off, v) \<Rightarrow> evs = (if GroupID cfg \<noteq> [] then [Committed off] else []))"
  by (cases out) (auto simp: ReadMessage_def Let_def split: if_splits)

lemma kafka_main_committed:
  assumes "GroupID cfg \<noteq> []" and "committed_before_processing (k_trace s)"
  shows "committed_before_processing (k_trace (kafka_main cfg out s))"
proof (cases "k_pc s")
  case KRead
  obtain res r1 evs where rm: "ReadMessage cfg out (k_reader s) = (res, r1, evs)"
    by (cases "ReadMessage cfg out (k_reader s)")
  from ReadMessage_events [OF rm] assms KRead rm show ?thesis
    by (cases res) (auto simp: kafka_main_def)
qed (use assms in \<open>auto simp: kafka_main_def\<close>)

lemma kafka_step_committed:
  assumes "GroupID cfg \<noteq> []" and "committed_before_processing (k_trace s)"
  shows "committed_before_processing (k_trace (kafka_step cfg a s))"
  using assms kafka_main_committed [OF assms]
  by (cases a) (auto simp: kafka_step_def)

lemma kafka_run_committed:
  assumes "GroupID cfg \<noteq> []"
  shows "committed_before_processing (k_trace s) \<Longrightarrow>
         committed_before_processing (k_trace (kafka_run cfg acts s))"
  unfolding kafka_run_def
  by (induction acts arbitrary: s) (simp_all add: kafka_step_committed [OF assms])

text \<open>Cancellation and the pull; the message in flight and the program point.\<close>

lemma kafka_main_inv:
  assumes "kafka_inv s"
  shows "kafka_inv (kafka_main cfg out s)"
proof (cases "k_pc s")
  case KRead
  obtain res r1 evs where rm: "ReadMessage cfg out (k_reader s) = (res, r1, evs)"
    by (cases "ReadMessage cfg out (k_reader s)")
  from ReadMessage_events [OF rm] assms KRead rm show ?thesis
    by (cases res) (auto simp: kafka_main_def kafka_inv_def)
qed (use assms in \<open>auto simp: kafka_main_def kafka_inv_def\<close>)

lemma kafka_step_inv:
  assumes "kafka_inv s"
  shows "kafka_inv (kafka_step cfg a s)"
proof (cases a)
  case (KMain out)
  with kafka_main_inv [OF assms] assms show ?thesis by (simp add: kafka_step_def)
qed (use assms in \<open>auto simp: kafka_step_def kafka_inv_def split: kafka_pc.splits\<close>)

lemma kafka_run_inv: "kafka_inv s \<Longrightarrow> kafka_inv (kafka_run cfg acts s)"
  unfolding kafka_run_def
  by (induction acts arbitrary: s) (simp_all add: kafka_step_inv)

lemma kafka_init_inv: "kafka_inv (kafka_init old c)"
  by (simp add: kafka_inv_def kafka_init_def)

lemma fetch_offset_fresh:
  assumes "kafka_fresh n s"
  shows "n \<le> fetch_offset reader_config (k_reader s)"
  using assms
  by (auto simp: kafka_fresh_def fetch_offset_def reader_config_def split: option.splits)

lemma ReadMessage_fresh:
  assumes "kafka_fresh n s"
    and "ReadMessage reader_config out (k_reader s) = (res, r1, evs)"
  shows "n \<le> length (k_log r1)
      \<and> (case k_position r1 of Some p \<Rightarrow> n \<le> p | None \<Rightarrow> True)
      \<and> (case k_committed r1 of Some c \<Rightarrow> n \<le> c | None \<Rightarrow> True)
      \<and> (case res of Inl e \<Rightarrow> True | Inr (off, v) \<Rightarrow> n \<le> off)
      \<and> (\<forall>e \<in> set evs. case event_offset e of Some off \<Rightarrow> n \<le> off | None \<Rightarrow> True)"
proof -
  note f = fetch_offset_fresh [OF assms(1)]
  from assms(1) have l: "n \<le> length (k_log (k_reader s))"
    and p: "(case k_position (k_reader s) of Some p \<Rightarrow> n \<le> p | None \<Rightarrow> True)"
    and c: "(case k_committed (k_reader s) of Some c \<Rightarrow> n \<le> c | None \<Rightarrow> True)"
    by (simp_all add: kafka_fresh_def)
  show ?thesis
  proof (cases out)
    case Fetched
    with assms(2) f l p c show ?thesis
      by (auto simp: ReadMessage_def Let_def reader_config_def split: if_splits)
  next
    case DeadlineExceeded
    with assms(2) f l p c show ?thesis
      by (auto simp: ReadMessage_def Let_def)
  next
    case (ReadFailed e)
    with assms(2) f l p c show ?thesis
      by (auto simp: ReadMessage_def Let_def)
  qed
qed

lemma kafka_main_fresh:
  assumes "kafka_fresh n s"
  shows "kafka_fresh n (kafka_main reader_config out s)"
proof (cases "k_pc s")
  case KRead
  obtain res r1 evs where rm: "ReadMessage reader_config out (k_reader s) = (res, r1, evs)"
    by (cases "ReadMessage reader_config out (k_reader s)")
  from ReadMessage_fresh [OF assms rm] assms KRead rm show ?thesis
    by (cases res) (auto simp: kafka_main_def kafka_fresh_def)
qed (use assms in \<open>auto simp: kafka_main_def kafka_fresh_def\<close>)

lemma kafka_step_fresh:
  assumes "kafka_fresh n s"
  shows "kafka_fresh n (kafka_step reader_config a s)"
proof (cases a)
  case (KMain out)
  with kafka_main_fresh [OF assms] assms show ?thesis by (simp add: kafka_step_def)
qed (use assms in \<open>auto simp: kafka_step_def kafka_fresh_def split: kafka_pc.splits\<close>)

lemma kafka_run_fresh:
  "kafka_fresh n s \<Longrightarrow> kafka_fresh n (kafka_run reader_config acts s)"
  unfolding kafka_run_def
  by (induction acts arbitrary: s) (simp_all add: kafka_step_fresh)

lemma kafka_init_fresh: "kafka_fresh (length old) (kafka_init old None)"
  by (simp add: kafka_fresh_def kafka_init_def)

subsection \<open>Polling variant\<close>


















text \<open>Archive after processing; no pull after the cancellation.\<close>

lemma pgmq_worker_inv:
  assumes "pgmq_inv s"
  shows "pgmq_inv (pgmq_worker u out s)"
proof (cases "p_pc s")
  case PRead
  obtain res q1 where r: "read 30 (p_now s) (p_db s) = (res, q1)"
    by (cases "read 30 (p_now s) (p_db s)")
  with PRead assms show ?thesis
    by (cases out; cases res)
       (auto simp: pgmq_worker_def pgmq_inv_def split: option.splits)
next
  case (PArchive m ev)
  obtain ok q1 where a: "archive (MsgID m) (p_db s) = (ok, q1)"
    by (cases "archive (MsgID m) (p_db s)")
  with PArchive assms show ?thesis
    by (cases out; cases ok) (auto simp: pgmq_worker_def pgmq_inv_def)
next
  case (PDelete m)
  with assms show ?thesis by (cases out) (auto simp: pgmq_worker_def pgmq_inv_def)
qed (use assms in \<open>auto simp: pgmq_worker_def pgmq_inv_def\<close>)

lemma pgmq_step_inv:
  assumes "pgmq_inv s"
  shows "pgmq_inv (pgmq_step u a s)"
proof (cases "p_main s = MReturned")
  case True
  with assms show ?thesis by (simp add: pgmq_step_def)
next
  case False
  show ?thesis
  proof (cases a)
    case (PWorker out)
    with False pgmq_worker_inv [OF assms] show ?thesis by (simp add: pgmq_step_def)
  next
    case PMain
    with False assms show ?thesis
      by (cases "p_main s") (auto simp: pgmq_step_def pgmq_inv_def split: pgmq_pc.splits)
  qed (use False assms in \<open>auto simp: pgmq_step_def pgmq_inv_def split: pgmq_pc.splits\<close>)
qed

lemma pgmq_run_inv: "pgmq_inv s \<Longrightarrow> pgmq_inv (pgmq_run u acts s)"
  unfolding pgmq_run_def
  by (induction acts arbitrary: s) (simp_all add: pgmq_step_inv)

lemma pgmq_init_inv: "pgmq_inv (pgmq_init q now)"
  by (simp add: pgmq_inv_def pgmq_init_def)

subsection \<open>The example runs, evaluated\<close>

lemma kafka_example_trace:
  "k_trace (kafka_run reader_config kafka_example (kafka_init [] None))
     = [Logged ''Email sent successfully (partition: %d, offset: %d)'', ProcessDone 0,
        ProcessStart 0, Logged ''Processing email notification: %s'', Delivered 0,
        Committed 0, PullStart, Logged ''No new message: %v'', PullStart]"
  by (simp add: kafka_run_def kafka_step_def kafka_main_def ReadMessage_def fetch_offset_def
        reader_config_def kafka_init_def kafka_example_def Let_def)

lemma kafka_example_old_trace:
  "k_trace (kafka_run reader_config kafka_example (kafka_init [zelda_text] None))
     = [Logged ''Email sent successfully (partition: %d, offset: %d)'', ProcessDone 1,
        ProcessStart 1, Logged ''Processing email notification: %s'', Delivered 1,
        Committed 1, PullStart, Logged ''No new message: %v'', PullStart]"
  by (simp add: kafka_run_def kafka_step_def kafka_main_def ReadMessage_def fetch_offset_def
        reader_config_def kafka_init_def kafka_example_def Let_def)

lemma kafka_shutdown_example_run:
  "k_pc (kafka_run reader_config kafka_shutdown_example (kafka_init [] None)) = KReturned
   \<and> k_trace (kafka_run reader_config kafka_shutdown_example (kafka_init [] None))
     = [LoopExit, Logged ''Email service stopped'',
        Logged ''Email sent successfully (partition: %d, offset: %d)'', ProcessDone 0,
        Cancelled, Logged ''Shutting down email service...'',
        ProcessStart 0, Logged ''Processing email notification: %s'', Delivered 0,
        Committed 0, PullStart, Logged ''No new message: %v'', PullStart]"
  by (simp add: kafka_run_def kafka_step_def kafka_main_def ReadMessage_def fetch_offset_def
        reader_config_def kafka_init_def kafka_shutdown_example_def Let_def)

text \<open>With \<open>FirstOffset\<close> in place of \<open>LastOffset\<close> the same reader would start at the
  beginning of the log and deliver the event published before it started.\<close>

lemma first_offset_would_replay:
  "k_trace (kafka_run (reader_config\<lparr>StartOffset := FirstOffset\<rparr>)
              [KMain DeadlineExceeded, KMain Fetched] (kafka_init [zelda_text] None))
     = [ProcessStart 0, Logged ''Processing email notification: %s'', Delivered 0,
        Committed 0, PullStart]"
  by (simp add: kafka_run_def kafka_step_def kafka_main_def ReadMessage_def fetch_offset_def
        reader_config_def kafka_init_def Let_def)

lemma rabbit_example_trace:
  "r_trace (rabbit_run [Next (Some example_delivery), Resume] rabbit_init)
     = [Logged ''Email processed and acknowledged'', Acked 1, ProcessDone 1,
        ProcessStart 1, Logged ''Processing email: %s'', Delivered 1]"
  by (simp add: rabbit_run_def rabbit_step_def rabbit_init_def example_delivery_def)




lemma pgmq_example_trace:
  "p_trace (pgmq_run decode_zelda
              (pgmq_example_start @ [PWorker DbOk, PWorker DbOk] @ pgmq_example_rest)
              (pgmq_init pgmq0 0))
     = [PullStart,
        Logged ''Email sent successfully for game: %s (archived message %d)'', Archived 2,
        ProcessDone 2, ProcessStart 2, Logged ''Processing email notification (ID: %d): %s'',
        Delivered 2, PullStart, Deleted 1, Logged ''Failed to parse message: %v'',
        Logged ''Processing email notification (ID: %d): %s'', Delivered 1, PullStart]"
  by (simp add: pgmq_run_def pgmq_step_def pgmq_worker_def pgmq_init_def pgmq0_def send_def
        read_def delete_def archive_def decode_zelda_def pgmq_example_start_def
        pgmq_example_rest_def Let_def zelda_text_def)

subsection \<open>Finalizing and processing\<close>

text \<open>
  Claim C1, as amended. In the broadcast and in the polling variant a delivered message is
  finalized (acknowledged, archived) only after its processing has completed; the delete
  of a message that cannot be decoded is the dead-letter path and no finalization in this
  sense. The log variant has no commit of its own: its reader belongs to a consumer group,
  so \<open>ReadMessage\<close> commits the offset of a message when it hands the message out, before
  the processing starts.
\<close>

theorem finalize_follows_processing:
  "finalized_after_processing (r_trace (rabbit_run ra rabbit_init))
   \<and> finalized_after_processing (p_trace (pgmq_run u pa (pgmq_init q now)))
   \<and> committed_before_processing (k_trace (kafka_run reader_config ka (kafka_init old c)))"
proof (intro conjI)
  show "finalized_after_processing (r_trace (rabbit_run ra rabbit_init))"
    by (rule rabbit_run_finalized) (simp add: rabbit_init_def)
  from pgmq_run_inv [OF pgmq_init_inv, of u pa q now]
  show "finalized_after_processing (p_trace (pgmq_run u pa (pgmq_init q now)))"
    by (simp add: pgmq_inv_def)
  have "GroupID reader_config \<noteq> []" by (simp add: reader_config_def)
  from kafka_run_committed [OF this]
  show "committed_before_processing (k_trace (kafka_run reader_config ka (kafka_init old c)))"
    by (simp add: kafka_init_def)
qed

text \<open>Witness for C1: one delivery acknowledged after its processing in the broadcast
  variant; a run of the polling consumer through both example messages, the second of
  which is archived after its processing; the example run of the log consumer.\<close>

theorem finalize_follows_processing_witness:
  "finalized_after_processing (r_trace (rabbit_run [Next (Some example_delivery), Resume] rabbit_init))
   \<and> r_trace (rabbit_run [Next (Some example_delivery), Resume] rabbit_init)
       = [Logged ''Email processed and acknowledged'', Acked 1, ProcessDone 1,
          ProcessStart 1, Logged ''Processing email: %s'', Delivered 1]
   \<and> finalized_after_processing
        (p_trace (pgmq_run decode_zelda
                    (pgmq_example_start @ [PWorker DbOk, PWorker DbOk] @ pgmq_example_rest)
                    (pgmq_init pgmq0 0)))
   \<and> Archived 2 \<in> set (p_trace (pgmq_run decode_zelda
                    (pgmq_example_start @ [PWorker DbOk, PWorker DbOk] @ pgmq_example_rest)
                    (pgmq_init pgmq0 0)))
   \<and> committed_before_processing (k_trace (kafka_run reader_config kafka_example (kafka_init [] None)))"
proof -
  have a: "Archived 2 \<in> set (p_trace (pgmq_run decode_zelda
                    (pgmq_example_start @ [PWorker DbOk, PWorker DbOk] @ pgmq_example_rest)
                    (pgmq_init pgmq0 0)))"
    unfolding pgmq_example_trace by simp
  from finalize_follows_processing
          [of "[Next (Some example_delivery), Resume]" decode_zelda
              "pgmq_example_start @ [PWorker DbOk, PWorker DbOk] @ pgmq_example_rest" pgmq0 0
              kafka_example "[]" None]
        rabbit_example_trace a
  show ?thesis by blast
qed

text \<open>Counterexample for C1 as stated: in the example run of the log consumer the offset 0
  is committed by the pull, before the message at offset 0 is processed; nothing is
  committed after the processing.\<close>

theorem log_variant_commits_before_processing:
  "\<not> finalized_after_processing
        (k_trace (kafka_run reader_config kafka_example (kafka_init [] None)))
   \<and> rev (k_trace (kafka_run reader_config kafka_example (kafka_init [] None)))
       = [PullStart, Logged ''No new message: %v'', PullStart, Committed 0, Delivered 0,
          Logged ''Processing email notification: %s'', ProcessStart 0, ProcessDone 0,
          Logged ''Email sent successfully (partition: %d, offset: %d)'']"
  by (simp add: kafka_example_trace)

subsection \<open>Messages that cannot be decoded\<close>








subsection \<open>Shutdown\<close>

text \<open>
  Claim C7, as amended. In the log and in the polling variant no pull starts once the
  handler of the signal has cancelled the context, and the loop that comes to its
  \<open>select\<close> after the cancellation returns. In the log variant the message in flight is
  processed to the end whether or not the context is cancelled, and the loop returns with
  no message in flight. The consumers of the broadcast variant handle no signal: a signal
  ends the process in whatever state the consumer is. (In the polling variant \<open>main\<close> does
  not wait for the worker; about the message in flight there nothing is stated here.)
\<close>

theorem shutdown_stops_pulls:
  "(let sk = kafka_run cfg ka (kafka_init old c)
    in no_pull_after_cancel (k_trace sk)
       \<and> (k_ctx_done sk \<and> k_pc sk = KSelect \<longrightarrow>
            k_pc (kafka_step cfg (KMain out) sk) = KReturned)
       \<and> (\<forall>off v. k_pc sk = KProcess off v \<longrightarrow>
            k_pc (kafka_step cfg (KMain out) sk) = KSelect
            \<and> ProcessDone off \<in> set (k_trace (kafka_step cfg (KMain out) sk))
            \<and> in_flight (k_trace (kafka_step cfg (KMain out) sk)) = None)
       \<and> (k_pc sk = KReturned \<longrightarrow> in_flight (k_trace sk) = None))
   \<and> (let sp = pgmq_run u pa (pgmq_init q now)
      in no_pull_after_cancel (p_trace sp)
         \<and> (p_ctx_done sp \<and> p_pc sp = PSelect \<and> p_main sp \<noteq> MReturned \<longrightarrow>
              p_pc (pgmq_step u (PWorker db) sp) = PReturned))
   \<and> r_exited (rabbit_step Signal (rabbit_run ra rabbit_init))"
proof -
  let ?sk = "kafka_run cfg ka (kafka_init old c)"
  let ?sp = "pgmq_run u pa (pgmq_init q now)"
  from kafka_run_inv [OF kafka_init_inv, of cfg ka old c]
  have k1: "no_pull_after_cancel (k_trace ?sk)"
    and k2: "in_flight (k_trace ?sk) = (case k_pc ?sk of KProcess off v \<Rightarrow> Some off | _ \<Rightarrow> None)"
    by (simp_all add: kafka_inv_def)
  have k3: "k_ctx_done ?sk \<and> k_pc ?sk = KSelect \<longrightarrow>
            k_pc (kafka_step cfg (KMain out) ?sk) = KReturned"
    by (simp add: kafka_step_def kafka_main_def)
  have k4: "\<forall>off v. k_pc ?sk = KProcess off v \<longrightarrow>
            k_pc (kafka_step cfg (KMain out) ?sk) = KSelect
            \<and> ProcessDone off \<in> set (k_trace (kafka_step cfg (KMain out) ?sk))
            \<and> in_flight (k_trace (kafka_step cfg (KMain out) ?sk)) = None"
    by (simp add: kafka_step_def kafka_main_def)
  from k2 have k5: "k_pc ?sk = KReturned \<longrightarrow> in_flight (k_trace ?sk) = None" by simp
  from pgmq_run_inv [OF pgmq_init_inv, of u pa q now]
  have p1: "no_pull_after_cancel (p_trace ?sp)" by (simp add: pgmq_inv_def)
  have p2: "p_ctx_done ?sp \<and> p_pc ?sp = PSelect \<and> p_main ?sp \<noteq> MReturned \<longrightarrow>
              p_pc (pgmq_step u (PWorker db) ?sp) = PReturned"
    by (simp add: pgmq_step_def pgmq_worker_def)
  have r: "r_exited (rabbit_step Signal (rabbit_run ra rabbit_init))"
    by (simp add: rabbit_step_def)
  from k1 k3 k4 k5 p1 p2 r show ?thesis unfolding Let_def by blast
qed

text \<open>Witness for C7: the signal arrives while the log consumer processes the message at
  offset 0. The processing completes, no pull follows the cancellation, the loop exits.\<close>

theorem shutdown_stops_pulls_witness:
  "k_pc (kafka_run reader_config kafka_shutdown_example (kafka_init [] None)) = KReturned
   \<and> rev (k_trace (kafka_run reader_config kafka_shutdown_example (kafka_init [] None)))
       = [PullStart, Logged ''No new message: %v'', PullStart, Committed 0, Delivered 0,
          Logged ''Processing email notification: %s'', ProcessStart 0,
          Logged ''Shutting down email service...'', Cancelled, ProcessDone 0,
          Logged ''Email sent successfully (partition: %d, offset: %d)'',
          Logged ''Email service stopped'', LoopExit]
   \<and> no_pull_after_cancel
        (k_trace (kafka_run reader_config kafka_shutdown_example (kafka_init [] None)))
   \<and> in_flight (k_trace (kafka_run reader_config kafka_shutdown_example (kafka_init [] None)))
       = None"
  using shutdown_stops_pulls
          [of reader_config kafka_shutdown_example "[]" None DeadlineExceeded decode_zelda
              "[]" pgmq0 0 DbOk "[]"]
        kafka_shutdown_example_run
  by (simp add: Let_def)

text \<open>Counterexample for C7 as stated: the email service of the broadcast variant receives a
  delivery and then the signal. The process is gone while the delivery is in flight; its
  processing never completes and it is never acknowledged.\<close>

theorem broadcast_consumer_signal_aborts_processing:
  "r_exited (rabbit_run rabbit_signal_example rabbit_init)
   \<and> r_pc (rabbit_run rabbit_signal_example rabbit_init) = Processing example_delivery
   \<and> in_flight (r_trace (rabbit_run rabbit_signal_example rabbit_init)) = Some 1
   \<and> ProcessDone 1 \<notin> set (r_trace (rabbit_run (rabbit_signal_example @ [Resume]) rabbit_init))"
  by (simp add: rabbit_run_def rabbit_step_def rabbit_init_def rabbit_signal_example_def
        example_delivery_def)

text \<open>In the polling variant \<open>main\<close> returns right after \<open>cancel()\<close>; the worker that was
  processing a message at that moment never finishes it, and the message is not archived.\<close>

lemma polling_exit_abandons_processing:
  "p_main (pgmq_run decode_zelda pgmq_exit_example (pgmq_init pgmq0 0)) = MReturned
   \<and> in_flight (p_trace (pgmq_run decode_zelda pgmq_exit_example (pgmq_init pgmq0 0))) = Some 1
   \<and> Archived 1 \<notin> set (p_trace (pgmq_run decode_zelda pgmq_exit_example (pgmq_init pgmq0 0)))"
  by (simp add: pgmq_run_def pgmq_step_def pgmq_worker_def pgmq_init_def pgmq0_def send_def
        read_def decode_zelda_def pgmq_exit_example_def Let_def)

subsection \<open>Where the consumer group starts\<close>

text \<open>
  Claim C10. The reader of the log consumer is configured with the group
  \<open>email-service-group\<close> and \<open>StartOffset = LastOffset\<close>. When the group has no committed
  offset, as at its first start, no event that was in the log before the start is ever
  delivered to the consumer or processed by it.
\<close>

theorem events_before_first_start_are_skipped:
  "i < length old \<longrightarrow>
     Delivered i \<notin> set (k_trace (kafka_run reader_config acts (kafka_init old None)))
     \<and> ProcessStart i \<notin> set (k_trace (kafka_run reader_config acts (kafka_init old None)))"
proof
  assume i: "i < length old"
  let ?tr = "k_trace (kafka_run reader_config acts (kafka_init old None))"
  from kafka_run_fresh [OF kafka_init_fresh, of old acts]
  have all: "\<forall>e \<in> set ?tr. case event_offset e of Some off \<Rightarrow> length old \<le> off | None \<Rightarrow> True"
    by (simp add: kafka_fresh_def)
  have "Delivered i \<notin> set ?tr"
  proof
    assume "Delivered i \<in> set ?tr"
    with all have "case event_offset (Delivered i) of Some off \<Rightarrow> length old \<le> off | None \<Rightarrow> True"
      by blast
    with i show False by simp
  qed
  moreover have "ProcessStart i \<notin> set ?tr"
  proof
    assume "ProcessStart i \<in> set ?tr"
    with all have "case event_offset (ProcessStart i) of Some off \<Rightarrow> length old \<le> off | None \<Rightarrow> True"
      by blast
    with i show False by simp
  qed
  ultimately show "Delivered i \<notin> set ?tr \<and> ProcessStart i \<notin> set ?tr" by simp
qed

text \<open>Witness for C10: one event is in the log before the consumer starts, one is published
  afterwards. The consumer is delivered offset 1 and never offset 0.\<close>

theorem events_before_first_start_are_skipped_witness:
  "(0::nat) < length [zelda_text]
   \<and> Delivered 0 \<notin> set (k_trace (kafka_run reader_config kafka_example (kafka_init [zelda_text] None)))
   \<and> ProcessStart 0 \<notin> set (k_trace (kafka_run reader_config kafka_example (kafka_init [zelda_text] None)))
   \<and> Delivered 1 \<in> set (k_trace (kafka_run reader_config kafka_example (kafka_init [zelda_text] None)))"
proof -
  have h: "(0::nat) < length [zelda_text]" by simp
  from events_before_first_start_are_skipped [of 0 "[zelda_text]" kafka_example] h
  have "Delivered 0 \<notin> set (k_trace (kafka_run reader_config kafka_example (kafka_init [zelda_text] None)))
   \<and> ProcessStart 0 \<notin> set (k_trace (kafka_run reader_config kafka_example (kafka_init [zelda_text] None)))"
    by blast
  moreover have "Delivered 1 \<in> set (k_trace (kafka_run reader_config kafka_example (kafka_init [zelda_text] None)))"
    by (simp add: kafka_example_old_trace)
  ultimately show ?thesis using h by blast
qed

end
